theory Spec2Isabelle
  imports Complex_Main
begin

section \<open>Numbers of JavaScript\<close>

text \<open>
  A Number is an IEEE 754 double: \<open>NaN\<close>, an infinity, or a finite value
  \<open>m \<sqdot> 2\<^sup>e\<close>, written \<open>Finite m e\<close> and kept in the form where \<open>m\<close> is odd (zero is
  \<open>Finite 0 0\<close>). The sign of zero is not kept: a negative zero is falsy and prints
  as \<open>0\<close>, like the positive one.
\<close>

datatype JSNumber = NaN | PosInfinity | NegInfinity | Finite int int

function normalise :: "int \<Rightarrow> int \<Rightarrow> JSNumber" where
  "normalise m e =
     (if m = 0 then Finite 0 0
      else if even m then normalise (m div 2) (e + 1)
      else Finite m e)"
  by pat_completeness auto
termination
  by (relation "measure (\<lambda>(m, e). nat \<bar>m\<bar>)") auto

declare normalise.simps [simp del]

text \<open>The Number of an integer literal (the integers up to \<open>2\<^sup>5\<^sup>3\<close> are doubles).\<close>

definition num :: "int \<Rightarrow> JSNumber" where
  "num n = normalise n 0"

fun bitLength :: "nat \<Rightarrow> nat" where
  "bitLength n = (if n = 0 then 0 else Suc (bitLength (n div 2)))"

declare bitLength.simps [simp del]

text \<open>
  \<open>\<lfloor>log\<^sub>2 (N / D)\<rfloor>\<close> for positive \<open>N\<close> and \<open>D\<close>: the difference \<open>k\<close> of the bit lengths,
  or \<open>k - 1\<close> when \<open>N / D\<close> is below \<open>2\<^sup>k\<close>.
\<close>

definition floorLog2 :: "int \<Rightarrow> int \<Rightarrow> int" where
  "floorLog2 N D =
     (let k = int (bitLength (nat N)) - int (bitLength (nat D))
      in if (if 0 \<le> k then D * 2 ^ nat k \<le> N else D \<le> N * 2 ^ nat (- k)) then k else k - 1)"

text \<open>The integer nearest to \<open>N / D\<close>, a tie going to the even one (\<open>0 \<le> N\<close>, \<open>0 < D\<close>).\<close>

definition roundHalfEven :: "int \<Rightarrow> int \<Rightarrow> int" where
  "roundHalfEven N D =
     (let f = N div D; r = N mod D
      in if 2 * r < D then f else if D < 2 * r then f + 1 else if even f then f else f + 1)"

text \<open>
  The double nearest to the rational \<open>N / D\<close> (\<open>0 < D\<close>), ties to the even significand:
  53 significant bits, the least exponent of a unit in the last place being \<open>-1074\<close>
  (subnormal numbers), and an infinity when the rounded magnitude reaches \<open>2\<^sup>1\<^sup>0\<^sup>2\<^sup>4\<close>.
\<close>

definition roundToDouble :: "int \<Rightarrow> int \<Rightarrow> JSNumber" where
  "roundToDouble N D =
     (if N = 0 then Finite 0 0
      else let a = \<bar>N\<bar>;
               u = max (floorLog2 a D - 52) (- 1074);
               m = (if 0 \<le> u then roundHalfEven a (D * 2 ^ nat u)
                    else roundHalfEven (a * 2 ^ nat (- u)) D)
           in if 1024 \<le> int (bitLength (nat m)) - 1 + u
              then (if 0 < N then PosInfinity else NegInfinity)
              else normalise (if 0 < N then m else - m) u)"

text \<open>The operators \<open>/\<close> and \<open>*\<close> on Numbers, and \<open>Math.round\<close>, which is \<open>\<lfloor>x + 1/2\<rfloor>\<close>.\<close>

fun js_div :: "JSNumber \<Rightarrow> JSNumber \<Rightarrow> JSNumber" where
  "js_div NaN y = NaN"
| "js_div x NaN = NaN"
| "js_div (Finite m e) (Finite m' e') =
     (if m' = 0 then (if m = 0 then NaN else if 0 < m then PosInfinity else NegInfinity)
      else roundToDouble (sgn m' * m * 2 ^ nat (e - e')) (\<bar>m'\<bar> * 2 ^ nat (e' - e)))"
| "js_div (Finite m e) y = Finite 0 0"
| "js_div x (Finite m' e') = (if (x = PosInfinity) = (0 \<le> m') then PosInfinity else NegInfinity)"
| "js_div x y = NaN"

fun js_mul :: "JSNumber \<Rightarrow> JSNumber \<Rightarrow> JSNumber" where
  "js_mul NaN y = NaN"
| "js_mul x NaN = NaN"
| "js_mul (Finite m e) (Finite m' e') =
     roundToDouble (m * m' * 2 ^ nat (e + e')) (2 ^ nat (- (e + e')))"
| "js_mul (Finite m e) y =
     (if m = 0 then NaN else if (y = PosInfinity) = (0 < m) then PosInfinity else NegInfinity)"
| "js_mul x (Finite m' e') =
     (if m' = 0 then NaN else if (x = PosInfinity) = (0 < m') then PosInfinity else NegInfinity)"
| "js_mul x y = (if x = y then PosInfinity else NegInfinity)"

fun Math_round :: "JSNumber \<Rightarrow> JSNumber" where
  "Math_round (Finite m e) =
     num (if 0 \<le> e then m * 2 ^ nat e else (2 * m + 2 ^ nat (- e)) div 2 ^ nat (1 - e))"
| "Math_round x = x"

text \<open>A Number in a condition (\<open>ToBoolean\<close>): \<open>NaN\<close> and zero are falsy.\<close>

definition ToBoolean :: "JSNumber \<Rightarrow> bool" where
  "ToBoolean x = (case x of NaN \<Rightarrow> False | Finite m e \<Rightarrow> m \<noteq> 0 | _ \<Rightarrow> True)"

text \<open>
  The rounding of the specification, \<open>round\<close>, on exact quotients: the nearest
  integer, a half going up. The views are compared with it below.
\<close>

definition spec_round :: "rat \<Rightarrow> int" where
  "spec_round x = \<lfloor>x + 1 / 2\<rfloor>"

section \<open>Data model (types.ts)\<close>

text \<open>
  \<^verbatim>\<open>export type HabitStatus = 'done' | 'failed' | 'none';\<close>
\<close>

datatype HabitStatus = StatusDone | StatusFailed | StatusNone

text \<open>
  \<^verbatim>\<open>interface Habit { id: string; name: string; targetTime: number; color?: string; }\<close>
  The field \<open>id\<close> is called \<open>habit_id\<close> here, \<open>id\<close> being the identity function of HOL.
  A field of the type \<open>number\<close> holds a Number of JavaScript (\<open>JSNumber\<close>, above); an
  optional field that is absent is \<open>None\<close>.
\<close>

record Habit =
  habit_id :: string
  name :: string
  targetTime :: JSNumber
  color :: "string option"

text \<open>
  \<^verbatim>\<open>interface HabitEntry { habitId: string; date: string; status: HabitStatus;
                         timeSpent: number; notes?: string; }\<close>
\<close>

record HabitEntry =
  habitId :: string
  date :: string
  status :: HabitStatus
  timeSpent :: JSNumber
  "notes" :: "string option"

text \<open>
  A JavaScript \<open>Date\<close> read in local time: the number of the local calendar day (days
  since 1970-01-01) and the milliseconds elapsed in that day.
\<close>

record Date =
  dayNo :: int
  msOfDay :: nat

text \<open>The \<open>useState\<close> cells of the \<open>App\<close> component.\<close>

record AppState =
  habits :: "Habit list"
  entries :: "HabitEntry list"
  selectedHabitForStats :: "Habit option"
  isAddingHabit :: bool
  editingEntry :: "(string \<times> string) option"
  editingHabit :: "Habit option"
  viewDate :: Date

section \<open>State store (App.tsx)\<close>

subsection \<open>Entries\<close>

text \<open>
  \<^verbatim>\<open>
  const updateEntry = (habitId, date, status, timeSpent, notes?) => {
    setEntries(prev => {
      const filtered = prev.filter(e => !(e.habitId === habitId && e.date === date));
      return [...filtered, { habitId, date, status, timeSpent, notes }];
    });
    setEditingEntry(null);
  };\<close>
\<close>

definition updateEntry ::
  "string \<Rightarrow> string \<Rightarrow> HabitStatus \<Rightarrow> JSNumber \<Rightarrow> string option \<Rightarrow> AppState \<Rightarrow> AppState" where
  "updateEntry hId d s t n st =
     (let filtered = filter (\<lambda>e. \<not> (habitId e = hId \<and> date e = d)) (entries st)
      in st\<lparr>entries := filtered @
                [\<lparr>habitId = hId, date = d, status = s, timeSpent = t, notes = n\<rparr>],
             editingEntry := None\<rparr>)"

text \<open>
  \<^verbatim>\<open>const getEntry = (habitId, date) =>
    entries.find(e => e.habitId === habitId && e.date === date);\<close>
  \<open>undefined\<close> is \<open>None\<close>.
\<close>

definition getEntry :: "AppState \<Rightarrow> string \<Rightarrow> string \<Rightarrow> HabitEntry option" where
  "getEntry st hId d = find (\<lambda>e. habitId e = hId \<and> date e = d) (entries st)"

subsection \<open>Habits\<close>

text \<open>
  \<^verbatim>\<open>
  const handleDeleteHabit = (id: string) => {
    if (window.confirm('Are you sure ...')) {
      setHabits(habits.filter(h => h.id !== id));
      setEntries(entries.filter(e => e.habitId !== id));
      setEditingHabit(null);
    }
  };\<close>
  The answer given to \<open>window.confirm\<close> is the first argument.
\<close>

definition handleDeleteHabit :: "bool \<Rightarrow> string \<Rightarrow> AppState \<Rightarrow> AppState" where
  "handleDeleteHabit confirm i st =
     (if confirm
      then st\<lparr>habits := filter (\<lambda>h. habit_id h \<noteq> i) (habits st),
              entries := filter (\<lambda>e. habitId e \<noteq> i) (entries st),
              editingHabit := None\<rparr>
      else st)"


text \<open>
  The built-in \<open>parseInt(string)\<close> with no radix: leading white space is dropped, then a
  sign, then the prefix \<open>0x\<close> or \<open>0X\<close> (which selects radix 16); the longest prefix of
  digits of the radix is read; with no digit the result is \<open>NaN\<close>, and otherwise the
  double nearest to the signed integer that the digits denote (an infinity for a
  very long numeral). The language lets an implementation take the decimal digits
  after the 20th for zeros; the model reads them all. Strings are sequences of 8-bit
  code units, among which the white space and line terminators of JavaScript are 9 to
  13, 32 and 160.
\<close>

definition isWhiteSpace :: "char \<Rightarrow> bool" where
  "isWhiteSpace c = ((of_char c :: nat) \<in> {9, 10, 11, 12, 13, 32, 160})"

definition digitOf :: "nat \<Rightarrow> char \<Rightarrow> nat option" where
  "digitOf R c =
     (let k = (of_char c :: nat);
          v = (if 48 \<le> k \<and> k \<le> 57 then Some (k - 48)
               else if 97 \<le> k \<and> k \<le> 122 then Some (k - 87)
               else if 65 \<le> k \<and> k \<le> 90 then Some (k - 55)
               else None)
      in case v of None \<Rightarrow> None | Some d \<Rightarrow> if d < R then Some d else None)"

definition digitsNat :: "nat \<Rightarrow> string \<Rightarrow> nat" where
  "digitsNat R cs = foldl (\<lambda>acc c. acc * R + (case digitOf R c of None \<Rightarrow> 0 | Some v \<Rightarrow> v)) 0 cs"

definition parseInt :: "string \<Rightarrow> JSNumber" where
  "parseInt inputString =
     (let S = dropWhile isWhiteSpace inputString;
          sign = (if take 1 S = ''-'' then - 1 else 1);
          S1 = (if take 1 S = ''+'' \<or> take 1 S = ''-'' then drop 1 S else S);
          hex = (take 2 S1 = ''0x'' \<or> take 2 S1 = ''0X'');
          R = (if hex then 16 else 10);
          S2 = (if hex then drop 2 S1 else S1);
          Z = takeWhile (\<lambda>c. digitOf R c \<noteq> None) S2
      in if Z = [] then NaN
         else roundToDouble (sign * int (digitsNat R Z)) 1)"

text \<open>
  \<^verbatim>\<open>
  const handleAddHabit = (e) => {
    e.preventDefault();
    const formData = new FormData(e.currentTarget);
    const name = formData.get('name') as string;
    const targetTime = parseInt(formData.get('targetTime') as string);
    if (name && targetTime) {
      const newHabit: Habit = {
        id: Math.random().toString(36).substr(2, 9), name, targetTime };
      setHabits([...habits, newHabit]);
      setIsAddingHabit(false);
    }
  };\<close>
  The string drawn from \<open>Math.random\<close> is the first argument, the two form fields are
  the next two. A string is truthy when it is not empty, a number when it is neither
  \<open>NaN\<close> nor zero.
\<close>

definition handleAddHabit :: "string \<Rightarrow> string \<Rightarrow> string \<Rightarrow> AppState \<Rightarrow> AppState" where
  "handleAddHabit newId nameField targetField st =
     (let targetTime' = parseInt targetField
      in if nameField \<noteq> [] \<and> ToBoolean targetTime'
         then st\<lparr>habits := habits st @
                   [\<lparr>habit_id = newId, name = nameField, targetTime = targetTime', color = None\<rparr>],
                 isAddingHabit := False\<rparr>
         else st)"

text \<open>
  \<^verbatim>\<open>
  const handleUpdateHabit = (e) => {
    e.preventDefault();
    if (!editingHabit) return;
    const formData = new FormData(e.currentTarget);
    const name = formData.get('name') as string;
    const targetTime = parseInt(formData.get('targetTime') as string);
    if (name && targetTime) {
      setHabits(habits.map(h => h.id === editingHabit.id ? { ...h, name, targetTime } : h));
      setEditingHabit(null);
    }
  };\<close>
\<close>

definition handleUpdateHabit :: "string \<Rightarrow> string \<Rightarrow> AppState \<Rightarrow> AppState" where
  "handleUpdateHabit nameField targetField st =
     (case editingHabit st of
        None \<Rightarrow> st
      | Some eh \<Rightarrow>
          (let targetTime' = parseInt targetField
           in if nameField \<noteq> [] \<and> ToBoolean targetTime'
              then st\<lparr>habits := map (\<lambda>h. if habit_id h = habit_id eh
                                          then h\<lparr>name := nameField, targetTime := targetTime'\<rparr>
                                          else h) (habits st),
                      editingHabit := None\<rparr>
              else st))"

subsection \<open>Sequences of store operations\<close>

text \<open>
  The four mutators of the store as events, with their arguments, and the state after
  a sequence of them.
\<close>

datatype StoreOp =
    AddHabit string string string
  | UpdateHabit string string
  | DeleteHabit bool string
  | UpsertEntry string string HabitStatus JSNumber "string option"

fun applyOp :: "AppState \<Rightarrow> StoreOp \<Rightarrow> AppState" where
  "applyOp st (AddHabit newId nameField targetField) = handleAddHabit newId nameField targetField st"
| "applyOp st (UpdateHabit nameField targetField) = handleUpdateHabit nameField targetField st"
| "applyOp st (DeleteHabit confirm i) = handleDeleteHabit confirm i st"
| "applyOp st (UpsertEntry hId d s t n) = updateEntry hId d s t n st"

definition run :: "AppState \<Rightarrow> StoreOp list \<Rightarrow> AppState" where
  "run st ops = foldl applyOp st ops"

text \<open>The composite identity of an entry, and the lists in which it is a key.\<close>

definition entryKey :: "HabitEntry \<Rightarrow> string \<times> string" where
  "entryKey e = (habitId e, date e)"

definition uniqueEntries :: "HabitEntry list \<Rightarrow> bool" where
  "uniqueEntries es = distinct (map entryKey es)"

section \<open>Dates\<close>

text \<open>
  The proleptic Gregorian calendar: the civil date (year, month from 1, day of the
  month) of a day number, and the day number of a civil date.
\<close>

definition civilFromDays :: "int \<Rightarrow> int \<times> int \<times> int" where
  "civilFromDays n =
     (let z = n + 719468;
          era = z div 146097;
          doe = z mod 146097;
          yoe = (doe - doe div 1460 + doe div 36524 - doe div 146096) div 365;
          doy = doe - (365 * yoe + yoe div 4 - yoe div 100);
          mp = (5 * doy + 2) div 153;
          d = doy - (153 * mp + 2) div 5 + 1;
          m = (if mp < 10 then mp + 3 else mp - 9)
      in (yoe + era * 400 + (if m \<le> 2 then 1 else 0), m, d))"

definition daysFromCivil :: "int \<Rightarrow> int \<Rightarrow> int \<Rightarrow> int" where
  "daysFromCivil y m d =
     (let y' = (if m \<le> 2 then y - 1 else y);
          era = y' div 400;
          yoe = y' mod 400;
          doy = (153 * (if 2 < m then m - 3 else m + 9) + 2) div 5 + d - 1;
          doe = yoe * 365 + yoe div 4 - yoe div 100 + doy
      in era * 146097 + doe - 719468)"

text \<open>The getters of \<open>Date\<close>; \<open>getMonth\<close> counts from 0.\<close>

definition getFullYear :: "Date \<Rightarrow> int" where
  "getFullYear dt = (case civilFromDays (dayNo dt) of (y, m, d) \<Rightarrow> y)"

definition getMonth :: "Date \<Rightarrow> int" where
  "getMonth dt = (case civilFromDays (dayNo dt) of (y, m, d) \<Rightarrow> m - 1)"

definition getDate :: "Date \<Rightarrow> int" where
  "getDate dt = (case civilFromDays (dayNo dt) of (y, m, d) \<Rightarrow> d)"

definition getTime :: "Date \<Rightarrow> int" where
  "getTime dt = dayNo dt * 86400000 + int (msOfDay dt)"

subsection \<open>The functions of date-fns that the components call\<close>

fun showNat :: "nat \<Rightarrow> string" where
  "showNat n = (if n < 10 then [''0123456789'' ! n]
                else showNat (n div 10) @ [''0123456789'' ! (n mod 10)])"

declare showNat.simps [simp del]

text \<open>\<open>addLeadingZeros\<close>: the decimal numeral, filled with zeros up to a length.\<close>

definition addLeadingZeros :: "int \<Rightarrow> nat \<Rightarrow> string" where
  "addLeadingZeros n targetLength =
     (let ds = showNat (nat \<bar>n\<bar>)
      in (if n < 0 then ''-'' else []) @ replicate (targetLength - length ds) CHR ''0'' @ ds)"

definition monthAbbreviation :: "int \<Rightarrow> string" where
  "monthAbbreviation m =
     [''Jan'', ''Feb'', ''Mar'', ''Apr'', ''May'', ''Jun'',
      ''Jul'', ''Aug'', ''Sep'', ''Oct'', ''Nov'', ''Dec''] ! nat m"

text \<open>
  \<open>format(date, 'yyyy-MM-dd')\<close> and \<open>format(date, 'MMM dd')\<close>. The token \<open>yyyy\<close> prints
  the year of the era, which is \<open>1 - year\<close> for a year that is not positive.
\<close>

definition format_yyyy_MM_dd :: "Date \<Rightarrow> string" where
  "format_yyyy_MM_dd dt =
     addLeadingZeros (if 0 < getFullYear dt then getFullYear dt else 1 - getFullYear dt) 4 @
     ''-'' @ addLeadingZeros (getMonth dt + 1) 2 @
     ''-'' @ addLeadingZeros (getDate dt) 2"

definition format_MMM_dd :: "Date \<Rightarrow> string" where
  "format_MMM_dd dt = monthAbbreviation (getMonth dt) @ '' '' @ addLeadingZeros (getDate dt) 2"

text \<open>\<open>subDays\<close> moves the calendar day and keeps the time of the day.\<close>

definition subDays :: "Date \<Rightarrow> nat \<Rightarrow> Date" where
  "subDays dt amount = dt\<lparr>dayNo := dayNo dt - int amount\<rparr>"

text \<open>\<open>startOfToday()\<close> reads the clock, whose reading is the argument.\<close>

definition startOfToday :: "Date \<Rightarrow> Date" where
  "startOfToday now = now\<lparr>msOfDay := 0\<rparr>"

definition isBefore :: "Date \<Rightarrow> Date \<Rightarrow> bool" where
  "isBefore dt dateToCompare = (getTime dt < getTime dateToCompare)"

definition startOfMonth :: "Date \<Rightarrow> Date" where
  "startOfMonth dt = \<lparr>dayNo = daysFromCivil (getFullYear dt) (getMonth dt + 1) 1, msOfDay = 0\<rparr>"

text \<open>\<open>lastDayOfMonth\<close>: the day before the first day of the next month, at midnight.\<close>

definition lastDayOfMonth :: "Date \<Rightarrow> Date" where
  "lastDayOfMonth dt =
     (let y = getFullYear dt; month = getMonth dt
      in \<lparr>dayNo = (if month = 11 then daysFromCivil (y + 1) 1 1
                    else daysFromCivil y (month + 2) 1) - 1,
          msOfDay = 0\<rparr>)"

text \<open>
  \<open>eachDayOfInterval({start, end})\<close>: the days from the day of \<open>start\<close> to the day of
  \<open>end\<close>, each at midnight. The components call it with a start that is not after
  the end.
\<close>

definition eachDayOfInterval :: "Date \<Rightarrow> Date \<Rightarrow> Date list" where
  "eachDayOfInterval start end' = map (\<lambda>n. \<lparr>dayNo = n, msOfDay = 0\<rparr>) [dayNo start..dayNo end']"

text \<open>
  \<open>compareDesc\<close>: \<open>-1\<close> when the first date is after the second, \<open>1\<close> when it is
  before, \<open>0\<close> when they are equal, and \<open>NaN\<close> (\<open>None\<close>) when one of them is invalid.
  An invalid date, such as \<open>parseISO\<close> returns for a string that it cannot read, is
  \<open>None\<close>.
\<close>

definition compareDesc :: "Date option \<Rightarrow> Date option \<Rightarrow> int option" where
  "compareDesc dateLeft dateRight =
     (case (dateLeft, dateRight) of
        (Some a, Some b) \<Rightarrow>
          Some (if getTime b < getTime a then - 1 else if getTime a < getTime b then 1 else 0)
      | _ \<Rightarrow> None)"

section \<open>Derived views\<close>

subsection \<open>The monthly grid (App.tsx)\<close>

text \<open>
  \<^verbatim>\<open>
  const days = useMemo(() => {
    const start = startOfMonth(viewDate);
    const end = lastDayOfMonth(viewDate);
    return eachDayOfInterval({ start, end });
  }, [viewDate]);\<close>
\<close>

definition days :: "Date \<Rightarrow> Date list" where
  "days vd = eachDayOfInterval (startOfMonth vd) (lastDayOfMonth vd)"

text \<open>
  What a cell of the grid shows: the class of its background, the icon of the notes,
  the text (its colour, the minutes, the target, the percentage) when there is one,
  and the plus sign of a cell with no entry.
\<close>

datatype Background = BgEmerald | BgRose | BgTransparent

datatype TextColour = TextEmerald | TextRose

record CellText =
  textColour :: TextColour
  shownTime :: JSNumber
  shownTarget :: JSNumber
  shownPercent :: JSNumber

record Cell =
  background :: Background
  notesIcon :: bool
  cellText :: "CellText option"
  plusIcon :: bool

text \<open>
  \<^verbatim>\<open>
  {habits.map(habit => {
    const entry = getEntry(habit.id, dateStr);
    const isPastDay = isBefore(day, startOfToday());
    const isAutoFailed = isPastDay && !entry;
    return (
      <td ...>
        <div className={cn(...,
          entry?.status === 'done' ? "bg-emerald-500/20" :
          (entry?.status === 'failed' || isAutoFailed) ? "bg-rose-500/20" :
          "bg-transparent active:bg-[#141414]/10")}>
          {entry?.notes && (<div ...><FileText size={10} /></div>)}
          {(entry || isAutoFailed) && (
            <div className="text-center">
              <div className={cn(...,
                entry?.status === 'done' ? "text-emerald-700" : "text-rose-700")}>
                {entry ? `${entry.timeSpent}/${habit.targetTime}m` : `0/${habit.targetTime}m`}
              </div>
              <div ...>
                {entry ? Math.round((entry.timeSpent / habit.targetTime) * 100) : 0}%
              </div>
            </div>)}
          {!entry && (<div ...><Plus size={14} ... /></div>)}
        </div>
      </td>);
  })}\<close>
  where \<open>dateStr = format(day, 'yyyy-MM-dd')\<close>. The first argument is the reading of the
  clock that \<open>startOfToday()\<close> takes in this cell.
\<close>

definition renderCell :: "Date \<Rightarrow> AppState \<Rightarrow> Date \<Rightarrow> Habit \<Rightarrow> Cell" where
  "renderCell now st day habit =
     (let dateStr = format_yyyy_MM_dd day;
          entry = getEntry st (habit_id habit) dateStr;
          isPastDay = isBefore day (startOfToday now);
          isAutoFailed = (isPastDay \<and> entry = None)
      in \<lparr>background =
            (if map_option status entry = Some StatusDone then BgEmerald
             else if map_option status entry = Some StatusFailed \<or> isAutoFailed then BgRose
             else BgTransparent),
          notesIcon =
            (case entry of
               None \<Rightarrow> False
             | Some e \<Rightarrow> (case notes e of None \<Rightarrow> False | Some n \<Rightarrow> n \<noteq> [])),
          cellText =
            (if entry \<noteq> None \<or> isAutoFailed
             then Some
               \<lparr>textColour =
                  (if map_option status entry = Some StatusDone then TextEmerald else TextRose),
                shownTime = (case entry of None \<Rightarrow> num 0 | Some e \<Rightarrow> timeSpent e),
                shownTarget = targetTime habit,
                shownPercent =
                  (case entry of
                     None \<Rightarrow> num 0
                   | Some e \<Rightarrow>
                       Math_round (js_mul (js_div (timeSpent e) (targetTime habit)) (num 100)))\<rparr>
             else None),
          plusIcon = (entry = None)\<rparr>)"

text \<open>
  \<^verbatim>\<open>{days.map(day => { ... {habits.map(habit => { ... })} ... })}\<close>
  The body of the table: a row for each day of the month, a cell for each habit. Each
  cell calls \<open>startOfToday()\<close>: \<open>clock i j\<close> is the reading of the clock in the cell of
  the row \<open>i\<close> and the column \<open>j\<close>.
\<close>

definition grid :: "(nat \<Rightarrow> nat \<Rightarrow> Date) \<Rightarrow> AppState \<Rightarrow> Cell list list" where
  "grid clock st =
     map (\<lambda>i. map (\<lambda>j. renderCell (clock i j) st (days (viewDate st) ! i) (habits st ! j))
                 [0..<length (habits st)])
       [0..<length (days (viewDate st))]"

subsection \<open>The statistics of a habit (HabitStats)\<close>

record ChartPoint =
  point_date :: string
  point_timeSpent :: JSNumber
  point_target :: JSNumber
  point_status :: HabitStatus

text \<open>
  \<^verbatim>\<open>
  const last30Days = useMemo(() => {
    const days = [];
    for (let i = 29; i >= 0; i--) {
      const date = subDays(new Date(), i);
      const dateStr = format(date, 'yyyy-MM-dd');
      const entry = entries.find(e => e.habitId === habit.id && e.date === dateStr);
      days.push({
        date: format(date, 'MMM dd'),
        timeSpent: entry?.timeSpent || 0,
        target: habit.targetTime,
        status: entry?.status || 'none'
      });
    }
    return days;
  }, [habit, entries]);\<close>
  \<open>chartPoint\<close> is the body of the loop, with the value that \<open>new Date()\<close> returns
  there as its first argument; \<open>last30DaysFrom i\<close> is the list of the points pushed
  from the counter \<open>i\<close> down to 0. Every iteration reads the clock anew: \<open>clock i\<close> is
  the reading in the iteration of the counter \<open>i\<close>. A \<open>timeSpent\<close> that is \<open>NaN\<close> or
  zero is falsy, and \<open>|| 0\<close> puts 0 in its place; a status is never falsy.
\<close>

definition chartPoint :: "Date \<Rightarrow> Habit \<Rightarrow> HabitEntry list \<Rightarrow> nat \<Rightarrow> ChartPoint" where
  "chartPoint now habit es i =
     (let date' = subDays now i;
          dateStr = format_yyyy_MM_dd date';
          entry = find (\<lambda>e. habitId e = habit_id habit \<and> date e = dateStr) es
      in \<lparr>point_date = format_MMM_dd date',
          point_timeSpent =
            (case entry of
               None \<Rightarrow> num 0
             | Some e \<Rightarrow> if ToBoolean (timeSpent e) then timeSpent e else num 0),
          point_target = targetTime habit,
          point_status = (case entry of None \<Rightarrow> StatusNone | Some e \<Rightarrow> status e)\<rparr>)"

primrec last30DaysFrom :: "(nat \<Rightarrow> Date) \<Rightarrow> Habit \<Rightarrow> HabitEntry list \<Rightarrow> nat \<Rightarrow> ChartPoint list" where
  "last30DaysFrom clock habit es 0 = [chartPoint (clock 0) habit es 0]"
| "last30DaysFrom clock habit es (Suc i) =
     chartPoint (clock (Suc i)) habit es (Suc i) # last30DaysFrom clock habit es i"

definition last30Days :: "(nat \<Rightarrow> Date) \<Rightarrow> Habit \<Rightarrow> HabitEntry list \<Rightarrow> ChartPoint list" where
  "last30Days clock habit es = last30DaysFrom clock habit es 29"

text \<open>
  \<^verbatim>\<open>
  const journalEntries = useMemo(() => {
    return entries
      .filter(e => e.habitId === habit.id && e.notes && e.notes.trim() !== '')
      .sort((a, b) => compareDesc(parseISO(a.date), parseISO(b.date)));
  }, [habit, entries]);\<close>
  \<open>parseISO\<close> is a function of the library date-fns, from strings to dates; it is the
  first argument here, so that nothing is assumed about the strings it reads.
  \<open>sort\<close> is stable, and a comparison that yields \<open>NaN\<close> counts as 0. When the date of
  every entry kept is valid, the comparator orders them by time, latest first, and the
  result is the stable sorting, computed here by insertion (an element goes before
  the first one that the comparator puts after it). When a date is invalid, the
  comparator is in general not a consistent one, and the language leaves the order of
  the result to the implementation: the model gives \<open>None\<close>.
\<close>

definition trim :: "string \<Rightarrow> string" where
  "trim s = rev (dropWhile isWhiteSpace (rev (dropWhile isWhiteSpace s)))"

definition entryAfter :: "(string \<Rightarrow> Date option) \<Rightarrow> HabitEntry \<Rightarrow> HabitEntry \<Rightarrow> bool" where
  "entryAfter parseISO a b =
     (case compareDesc (parseISO (date a)) (parseISO (date b)) of
        None \<Rightarrow> False
      | Some c \<Rightarrow> 0 < c)"

fun insertEntry ::
  "(string \<Rightarrow> Date option) \<Rightarrow> HabitEntry \<Rightarrow> HabitEntry list \<Rightarrow> HabitEntry list" where
  "insertEntry parseISO a [] = [a]"
| "insertEntry parseISO a (b # bs) =
     (if entryAfter parseISO a b then b # insertEntry parseISO a bs else a # b # bs)"

definition journalEntries ::
  "(string \<Rightarrow> Date option) \<Rightarrow> Habit \<Rightarrow> HabitEntry list \<Rightarrow> HabitEntry list option" where
  "journalEntries parseISO habit es =
     (let kept = filter (\<lambda>e. habitId e = habit_id habit \<and>
                              (case notes e of None \<Rightarrow> False | Some n \<Rightarrow> n \<noteq> [] \<and> trim n \<noteq> []))
                   es
      in if list_all (\<lambda>e. parseISO (date e) \<noteq> None) kept
         then Some (foldr (insertEntry parseISO) kept [])
         else None)"

text \<open>
  \<^verbatim>\<open>
  const completionRate = useMemo(() => {
    const habitEntries = entries.filter(e => e.habitId === habit.id);
    if (habitEntries.length === 0) return 0;
    const done = habitEntries.filter(e => e.status === 'done').length;
    return Math.round((done / habitEntries.length) * 100);
  }, [habit, entries]);\<close>
\<close>

definition completionRate :: "Habit \<Rightarrow> HabitEntry list \<Rightarrow> JSNumber" where
  "completionRate habit es =
     (let habitEntries = filter (\<lambda>e. habitId e = habit_id habit) es
      in if length habitEntries = 0 then num 0
         else let done' = length (filter (\<lambda>e. status e = StatusDone) habitEntries)
              in Math_round
                   (js_mul (js_div (num (int done')) (num (int (length habitEntries)))) (num 100)))"

text \<open>
  What the component computes from its properties, the library function and the
  readings of the clock.
\<close>

record StatsView =
  view_last30Days :: "ChartPoint list"
  view_journalEntries :: "HabitEntry list option"
  view_completionRate :: JSNumber

definition HabitStats ::
  "(string \<Rightarrow> Date option) \<Rightarrow> (nat \<Rightarrow> Date) \<Rightarrow> Habit \<Rightarrow> HabitEntry list \<Rightarrow> StatsView" where
  "HabitStats parseISO clock habit es =
     \<lparr>view_last30Days = last30Days clock habit es,
      view_journalEntries = journalEntries parseISO habit es,
      view_completionRate = completionRate habit es\<rparr>"

section \<open>Persistence (App.tsx)\<close>

subsection \<open>Values of JavaScript and \<open>JSON.parse\<close>\<close>

text \<open>
  The values that \<open>JSON.parse\<close> builds, \<open>undefined\<close>, and a built-in function (a
  method found on a prototype). A string value is the list of its code units; an
  object is the list of its members in the order of the text.
\<close>

datatype JSValue =
    Undefined
  | Null
  | Boolean bool
  | Number JSNumber
  | String "nat list"
  | Array "JSValue list"
  | Object "(nat list \<times> JSValue) list"
  | NativeFunction string

datatype JSError = SyntaxError | TypeError

text \<open>
  What a parsing function returns: a value and the rest of the text, a rejection, or
  the exhaustion of its fuel.
\<close>

datatype 'a Parsed = Parsed 'a string | Rejected | OutOfFuel

definition skipWs :: "string \<Rightarrow> string" where
  "skipWs s = dropWhile (\<lambda>c. c = CHR 0x20 \<or> c = CHR 0x09 \<or> c = CHR 0x0A \<or> c = CHR 0x0D) s"

definition isDigit :: "char \<Rightarrow> bool" where
  "isDigit c = (digitOf 10 c \<noteq> None)"

text \<open>
  The characters of a string after its opening quote, up to the closing quote:
  \<open>0x22\<close> is the quote, \<open>0x5C\<close> the backslash; a control character is rejected.
\<close>

fun parseChars :: "string \<Rightarrow> nat list \<Rightarrow> (nat list) Parsed" where
  "parseChars [] acc = Rejected"
| "parseChars [c] acc = (if c = CHR 0x22 then Parsed acc [] else Rejected)"
| "parseChars (c # e # r) acc =
     (if c = CHR 0x22 then Parsed acc (e # r)
      else if c = CHR 0x5C then
        (if e = CHR 0x22 then parseChars r (acc @ [0x22])
         else if e = CHR 0x5C then parseChars r (acc @ [0x5C])
         else if e = CHR ''/'' then parseChars r (acc @ [0x2F])
         else if e = CHR ''b'' then parseChars r (acc @ [0x08])
         else if e = CHR ''f'' then parseChars r (acc @ [0x0C])
         else if e = CHR ''n'' then parseChars r (acc @ [0x0A])
         else if e = CHR ''r'' then parseChars r (acc @ [0x0D])
         else if e = CHR ''t'' then parseChars r (acc @ [0x09])
         else if e = CHR ''u'' \<and> 4 \<le> length r \<and> list_all (\<lambda>h. digitOf 16 h \<noteq> None) (take 4 r)
           then parseChars (drop 4 r) (acc @ [digitsNat 16 (take 4 r)])
         else Rejected)
      else if (of_char c :: nat) < 0x20 then Rejected
      else parseChars (e # r) (acc @ [of_char c]))"

text \<open>
  A number: an optional minus sign, the integer part (\<open>0\<close>, or digits that do not
  start with \<open>0\<close>), an optional fraction, an optional exponent. Its value is the
  double nearest to the decimal numeral.
\<close>

definition parseNumber :: "string \<Rightarrow> JSValue Parsed" where
  "parseNumber s =
     (let negative = (take 1 s = ''-'');
          s1 = (if negative then drop 1 s else s);
          intPart = (if take 1 s1 = ''0'' then ''0'' else takeWhile isDigit s1);
          s2 = drop (length intPart) s1;
          hasFrac = (take 1 s2 = ''.'');
          fracPart = (if hasFrac then takeWhile isDigit (drop 1 s2) else []);
          s3 = (if hasFrac then drop (1 + length fracPart) s2 else s2);
          hasExp = (take 1 s3 = ''e'' \<or> take 1 s3 = ''E'');
          s4 = (if hasExp then drop 1 s3 else s3);
          expNegative = (hasExp \<and> take 1 s4 = ''-'');
          s5 = (if hasExp \<and> (take 1 s4 = ''-'' \<or> take 1 s4 = ''+'') then drop 1 s4 else s4);
          expPart = (if hasExp then takeWhile isDigit s5 else []);
          rest = drop (length expPart) s5;
          mantissa = int (digitsNat 10 (intPart @ fracPart));
          exponent = (if expNegative then - int (digitsNat 10 expPart) else int (digitsNat 10 expPart))
                       - int (length fracPart)
      in if intPart = [] \<or> (hasFrac \<and> fracPart = []) \<or> (hasExp \<and> expPart = []) then Rejected
         else Parsed
                (Number (roundToDouble ((if negative then - mantissa else mantissa) * 10 ^ nat exponent)
                           (10 ^ nat (- exponent))))
                rest)"

definition parseLiteral :: "string \<Rightarrow> JSValue Parsed" where
  "parseLiteral s =
     (if take 4 s = ''true'' then Parsed (Boolean True) (drop 4 s)
      else if take 5 s = ''false'' then Parsed (Boolean False) (drop 5 s)
      else if take 4 s = ''null'' then Parsed Null (drop 4 s)
      else Rejected)"

text \<open>
  A value at the head of the text, the elements of an array after its bracket, and
  the members of an object after its brace. The first argument bounds the number of
  nested calls.
\<close>

fun parseValue :: "nat \<Rightarrow> string \<Rightarrow> JSValue Parsed"
  and parseElements :: "nat \<Rightarrow> string \<Rightarrow> JSValue list \<Rightarrow> JSValue Parsed"
  and parseMembers :: "nat \<Rightarrow> string \<Rightarrow> (nat list \<times> JSValue) list \<Rightarrow> JSValue Parsed" where
  "parseValue 0 s = OutOfFuel"
| "parseValue (Suc n) s =
     (if take 1 s = ''{'' then
        (if take 1 (skipWs (drop 1 s)) = ''}'' then Parsed (Object []) (drop 1 (skipWs (drop 1 s)))
         else parseMembers n (skipWs (drop 1 s)) [])
      else if take 1 s = ''['' then
        (if take 1 (skipWs (drop 1 s)) = '']'' then Parsed (Array []) (drop 1 (skipWs (drop 1 s)))
         else parseElements n (skipWs (drop 1 s)) [])
      else if take 1 s = [CHR 0x22] then
        (case parseChars (drop 1 s) [] of
           Parsed cs r \<Rightarrow> Parsed (String cs) r
         | Rejected \<Rightarrow> Rejected
         | OutOfFuel \<Rightarrow> OutOfFuel)
      else if take 1 s = ''-'' \<or> list_all isDigit (take 1 s) \<and> s \<noteq> [] then parseNumber s
      else parseLiteral s)"
| "parseElements 0 s acc = OutOfFuel"
| "parseElements (Suc n) s acc =
     (case parseValue n s of
        Parsed v r \<Rightarrow>
          (if take 1 (skipWs r) = '','' then parseElements n (skipWs (drop 1 (skipWs r))) (acc @ [v])
           else if take 1 (skipWs r) = '']'' then Parsed (Array (acc @ [v])) (drop 1 (skipWs r))
           else Rejected)
      | Rejected \<Rightarrow> Rejected
      | OutOfFuel \<Rightarrow> OutOfFuel)"
| "parseMembers 0 s acc = OutOfFuel"
| "parseMembers (Suc n) s acc =
     (if take 1 s = [CHR 0x22] then
        (case parseChars (drop 1 s) [] of
           Parsed k r \<Rightarrow>
             (if take 1 (skipWs r) = '':'' then
                (case parseValue n (skipWs (drop 1 (skipWs r))) of
                   Parsed v r' \<Rightarrow>
                     (if take 1 (skipWs r') = '','' then
                        parseMembers n (skipWs (drop 1 (skipWs r'))) (acc @ [(k, v)])
                      else if take 1 (skipWs r') = ''}'' then
                        Parsed (Object (acc @ [(k, v)])) (drop 1 (skipWs r'))
                      else Rejected)
                 | Rejected \<Rightarrow> Rejected
                 | OutOfFuel \<Rightarrow> OutOfFuel)
              else Rejected)
         | Rejected \<Rightarrow> Rejected
         | OutOfFuel \<Rightarrow> OutOfFuel)
      else Rejected)"

text \<open>
  \<open>JSON.parse(text)\<close>: the value of the whole text, or a \<open>SyntaxError\<close>. Twice the
  length of the text, and two, is fuel enough (lemma \<open>JSON_parse_fuel\<close> below).
\<close>

definition JSON_parse :: "string \<Rightarrow> JSError + JSValue" where
  "JSON_parse text =
     (case parseValue (2 * length text + 2) (skipWs text) of
        Parsed v r \<Rightarrow> if skipWs r = [] then Inr v else Inl SyntaxError
      | Rejected \<Rightarrow> Inl SyntaxError
      | OutOfFuel \<Rightarrow> Inl SyntaxError)"

text \<open>
  Reading the property \<open>key\<close> of a value that is neither \<open>null\<close> nor \<open>undefined\<close>: a
  member of an object (the last one of that name), else what the prototype has. Of
  the two names read below, only \<open>entries\<close> is on a prototype, that of the arrays.
\<close>

definition str :: "string \<Rightarrow> nat list" where
  "str s = map of_char s"

definition getProperty :: "JSValue \<Rightarrow> string \<Rightarrow> JSValue" where
  "getProperty v key =
     (case v of
        Object members \<Rightarrow> (case map_of (rev members) (str key) of None \<Rightarrow> Undefined | Some x \<Rightarrow> x)
      | Array xs \<Rightarrow> if key = ''entries'' then NativeFunction ''Array.prototype.entries'' else Undefined
      | _ \<Rightarrow> Undefined)"

subsection \<open>The load effect\<close>

text \<open>The habits of a first start.\<close>

definition defaultHabits :: "Habit list" where
  "defaultHabits =
     [\<lparr>habit_id = ''1'', name = ''Exercise'', targetTime = num 30, color = None\<rparr>,
      \<lparr>habit_id = ''2'', name = ''Reading'', targetTime = num 20, color = None\<rparr>,
      \<lparr>habit_id = ''3'', name = ''Meditation'', targetTime = num 10, color = None\<rparr>]"

text \<open>
  \<^verbatim>\<open>
  useEffect(() => {
    const saved = localStorage.getItem(STORAGE_KEY);
    if (saved) {
      const { habits, entries } = JSON.parse(saved);
      setHabits(habits);
      setEntries(entries);
    } else {
      // Default habits
      setHabits([
        { id: '1', name: 'Exercise', targetTime: 30 },
        { id: '2', name: 'Reading', targetTime: 20 },
        { id: '3', name: 'Meditation', targetTime: 10 },
      ]);
    }
  }, []);\<close>
  The argument is what \<open>getItem\<close> returns, \<open>null\<close> being \<open>None\<close>. The effect throws,
  or calls \<open>setHabits\<close> and \<open>setEntries\<close> with the two properties, or calls \<open>setHabits\<close>
  with the default habits and leaves the entries empty.
\<close>

datatype LoadOutcome =
    Threw JSError
  | SetHabitsAndEntries JSValue JSValue
  | SetDefaultHabits "Habit list"

definition loadData :: "string option \<Rightarrow> LoadOutcome" where
  "loadData saved =
     (case saved of
        None \<Rightarrow> SetDefaultHabits defaultHabits
      | Some text \<Rightarrow>
          if text = [] then SetDefaultHabits defaultHabits
          else (case JSON_parse text of
                  Inl e \<Rightarrow> Threw e
                | Inr v \<Rightarrow>
                    if v = Null then Threw TypeError
                    else SetHabitsAndEntries (getProperty v ''habits'') (getProperty v ''entries'')))"

section \<open>Example data\<close>

text \<open>
  The state of a first start (the default habits, no entry), and a sequence of store
  operations that logs a day twice and deletes a habit.
\<close>

definition exampleState :: AppState where
  "exampleState =
     \<lparr>habits = defaultHabits, entries = [], selectedHabitForStats = None,
      isAddingHabit = False, editingEntry = None, editingHabit = None,
      viewDate = \<lparr>dayNo = 19723, msOfDay = 0\<rparr>\<rparr>"

definition exampleOps :: "StoreOp list" where
  "exampleOps =
     [UpsertEntry ''1'' ''2024-01-05'' StatusDone (num 45) None,
      UpsertEntry ''2'' ''2024-01-05'' StatusFailed (num 5) (Some ''tired''),
      UpsertEntry ''1'' ''2024-01-05'' StatusFailed (num 10) None,
      AddHabit ''k3j9x0q1z'' ''Run'' ''15'',
      DeleteHabit True ''2'']"

text \<open>
  A habit with the target of 30 minutes, logged on two days of January 2024, and a
  reading of the clock on 2024-01-05 at 10 o'clock. The day 19723 is 2024-01-01.
\<close>

definition exampleHabit :: Habit where
  "exampleHabit = \<lparr>habit_id = ''h1'', name = ''Exercise'', targetTime = num 30, color = None\<rparr>"

definition exampleEntries :: "HabitEntry list" where
  "exampleEntries =
     [\<lparr>habitId = ''h1'', date = ''2024-01-05'', status = StatusDone, timeSpent = num 45,
       notes = None\<rparr>,
      \<lparr>habitId = ''h1'', date = ''2024-01-03'', status = StatusFailed, timeSpent = num 10,
       notes = Some ''tired''\<rparr>]"

definition loggedState :: AppState where
  "loggedState =
     \<lparr>habits = [exampleHabit], entries = exampleEntries, selectedHabitForStats = None,
      isAddingHabit = False, editingEntry = None, editingHabit = None,
      viewDate = \<lparr>dayNo = 19723, msOfDay = 0\<rparr>\<rparr>"

definition exampleNow :: Date where
  "exampleNow = \<lparr>dayNo = 19727, msOfDay = 36000000\<rparr>"

text \<open>
  Readings of the clock around a midnight: the first iteration of the loop of the
  trend (the counter 29) runs in the last millisecond of 2024-01-05, the other ones
  on 2024-01-06.
\<close>

definition midnightClock :: "nat \<Rightarrow> Date" where
  "midnightClock i =
     (if i = 29 then \<lparr>dayNo = 19727, msOfDay = 86399999\<rparr> else \<lparr>dayNo = 19728, msOfDay = 0\<rparr>)"

text \<open>
  A habit with the target of 40 minutes and an entry of 23 minutes; and a log of 40
  days from 2024-01-01, of which the first 23 are done.
\<close>

definition tieHabit :: Habit where
  "tieHabit = \<lparr>habit_id = ''h2'', name = ''Reading'', targetTime = num 40, color = None\<rparr>"

definition tieState :: AppState where
  "tieState =
     \<lparr>habits = [tieHabit],
      entries = [\<lparr>habitId = ''h2'', date = ''2024-01-05'', status = StatusFailed,
                  timeSpent = num 23, notes = None\<rparr>],
      selectedHabitForStats = None, isAddingHabit = False, editingEntry = None,
      editingHabit = None, viewDate = \<lparr>dayNo = 19723, msOfDay = 0\<rparr>\<rparr>"

definition tieEntries :: "HabitEntry list" where
  "tieEntries =
     map (\<lambda>i. \<lparr>habitId = ''h2'', date = format_yyyy_MM_dd \<lparr>dayNo = 19723 + int i, msOfDay = 0\<rparr>,
                status = (if i < 23 then StatusDone else StatusFailed), timeSpent = num 40,
                notes = None\<rparr>)
       [0..<40]"

text \<open>
  Texts of the storage slot, written with a backquote for the double quote: what the
  save effect writes for one habit and no entry, and a text that is not JSON.
\<close>

definition dq :: "string \<Rightarrow> string" where
  "dq s = map (\<lambda>c. if c = CHR 0x60 then CHR 0x22 else c) s"

definition savedSnapshot :: string where
  "savedSnapshot = dq ''{`habits`:[{`id`:`1`,`name`:`Exercise`,`targetTime`:30}],`entries`:[]}''"

definition malformedText :: string where
  "malformedText = ''{oops''"

section \<open>Properties of the state store\<close>

subsection \<open>Lookup after an update\<close>

lemma find_append_cases:
  "find P (xs @ ys) = (case find P xs of None \<Rightarrow> find P ys | Some x \<Rightarrow> Some x)"
  by (induction xs) auto

lemma find_filter_excluded: "(\<And>x. Q x \<Longrightarrow> \<not> P x) \<Longrightarrow> find P (filter Q xs) = None"
  by (simp add: find_None_iff)

lemma find_upsert:
  "find (\<lambda>e. habitId e = hId \<and> date e = d)
     (filter (\<lambda>e. \<not> (habitId e = hId \<and> date e = d)) es @
        [\<lparr>habitId = hId, date = d, status = s, timeSpent = t, notes = n\<rparr>])
   = Some \<lparr>habitId = hId, date = d, status = s, timeSpent = t, notes = n\<rparr>"
proof -
  have "find (\<lambda>e. habitId e = hId \<and> date e = d)
          (filter (\<lambda>e. \<not> (habitId e = hId \<and> date e = d)) es) = None"
    by (rule find_filter_excluded) simp
  then show ?thesis
    by (simp add: find_append_cases)
qed

lemma entries_updateEntry:
  "entries (updateEntry hId d s t n st) =
     filter (\<lambda>e. \<not> (habitId e = hId \<and> date e = d)) (entries st) @
       [\<lparr>habitId = hId, date = d, status = s, timeSpent = t, notes = n\<rparr>]"
  by (simp add: updateEntry_def Let_def)

lemma getEntry_updateEntry:
  "getEntry (updateEntry hId d s t n st) hId d =
     Some \<lparr>habitId = hId, date = d, status = s, timeSpent = t, notes = n\<rparr>"
  unfolding getEntry_def entries_updateEntry by (rule find_upsert)

lemma filter_key_updateEntry:
  "filter (\<lambda>e. habitId e = hId \<and> date e = d) (entries (updateEntry hId d s t n st)) =
     [\<lparr>habitId = hId, date = d, status = s, timeSpent = t, notes = n\<rparr>]"
proof -
  have "filter (\<lambda>e. habitId e = hId \<and> date e = d)
          (filter (\<lambda>e. \<not> (habitId e = hId \<and> date e = d)) (entries st)) = []"
    by (simp add: filter_empty_conv)
  then show ?thesis
    unfolding entries_updateEntry by simp
qed

text \<open>
  Claim C1. For every state, habit id and date: after \<open>updateEntry\<close> with
  \<open>(s1, t1, n1)\<close> and then with \<open>(s2, t2, n2)\<close> on the same habit id and date,
  \<open>getEntry\<close> returns exactly the second entry, and the entries with that habit id
  and date are that one entry alone.
\<close>

theorem upsert_last_write_wins:
  "getEntry (updateEntry hId d s2 t2 n2 (updateEntry hId d s1 t1 n1 st)) hId d =
     Some \<lparr>habitId = hId, date = d, status = s2, timeSpent = t2, notes = n2\<rparr> \<and>
   filter (\<lambda>e. habitId e = hId \<and> date e = d)
     (entries (updateEntry hId d s2 t2 n2 (updateEntry hId d s1 t1 n1 st))) =
     [\<lparr>habitId = hId, date = d, status = s2, timeSpent = t2, notes = n2\<rparr>]"
  by (simp only: getEntry_updateEntry filter_key_updateEntry)

subsection \<open>At most one entry per habit and day\<close>

lemma uniqueEntries_filter: "uniqueEntries es \<Longrightarrow> uniqueEntries (filter P es)"
  unfolding uniqueEntries_def by (rule distinct_map_filter)

lemma uniqueEntries_upsert:
  assumes "uniqueEntries es"
  shows "uniqueEntries (filter (\<lambda>e. \<not> (habitId e = hId \<and> date e = d)) es @
           [\<lparr>habitId = hId, date = d, status = s, timeSpent = t, notes = n\<rparr>])"
proof -
  let ?keep = "filter (\<lambda>e. \<not> (habitId e = hId \<and> date e = d)) es"
  have "distinct (map entryKey ?keep)"
    using assms uniqueEntries_filter unfolding uniqueEntries_def by blast
  moreover have "(hId, d) \<notin> entryKey ` set ?keep"
    by (auto simp: entryKey_def)
  ultimately show ?thesis
    by (simp add: uniqueEntries_def entryKey_def)
qed

lemma entries_handleAddHabit: "entries (handleAddHabit i nf tf st) = entries st"
  by (simp add: handleAddHabit_def Let_def)

lemma entries_handleUpdateHabit: "entries (handleUpdateHabit nf tf st) = entries st"
  by (simp add: handleUpdateHabit_def Let_def split: option.splits)

lemma entries_handleDeleteHabit:
  "entries (handleDeleteHabit c i st) =
     (if c then filter (\<lambda>e. habitId e \<noteq> i) (entries st) else entries st)"
  by (simp add: handleDeleteHabit_def)

lemma uniqueEntries_applyOp:
  "uniqueEntries (entries st) \<Longrightarrow> uniqueEntries (entries (applyOp st op))"
proof (cases op)
  case (AddHabit i nf tf)
  then show "uniqueEntries (entries st) \<Longrightarrow> ?thesis"
    by (simp add: entries_handleAddHabit)
next
  case (UpdateHabit nf tf)
  then show "uniqueEntries (entries st) \<Longrightarrow> ?thesis"
    by (simp add: entries_handleUpdateHabit)
next
  case (DeleteHabit c i)
  then show "uniqueEntries (entries st) \<Longrightarrow> ?thesis"
    by (simp add: entries_handleDeleteHabit uniqueEntries_filter)
next
  case (UpsertEntry hId d s t n)
  then show "uniqueEntries (entries st) \<Longrightarrow> ?thesis"
    by (simp only: applyOp.simps entries_updateEntry uniqueEntries_upsert)
qed

text \<open>
  Claim C2. From a state whose entries have pairwise different (habit id, date) pairs,
  every sequence of the store operations (adding, updating and deleting a habit,
  logging an entry) leads to a state whose entries have pairwise different pairs.
\<close>

theorem store_ops_keep_entries_unique:
  "uniqueEntries (entries st) \<Longrightarrow> uniqueEntries (entries (run st ops))"
  unfolding run_def
proof (induction ops arbitrary: st)
  case Nil
  then show ?case by simp
next
  case (Cons op ops)
  from Cons.prems have "uniqueEntries (entries (applyOp st op))"
    by (rule uniqueEntries_applyOp)
  then show ?case
    using Cons.IH by simp
qed

text \<open>The invariant on the example: five operations from the state of a first start.\<close>

theorem store_ops_keep_entries_unique_witness:
  "uniqueEntries (entries exampleState) \<and> uniqueEntries (entries (run exampleState exampleOps))"
proof -
  have start: "uniqueEntries (entries exampleState)"
    by (simp add: exampleState_def uniqueEntries_def)
  from store_ops_keep_entries_unique [OF start] start show ?thesis
    by simp
qed

subsection \<open>Deleting a habit\<close>

text \<open>
  Claim C7. A confirmed \<open>handleDeleteHabit\<close> of the id \<open>i\<close> leaves no habit with the
  id \<open>i\<close> and no entry of the habit \<open>i\<close>; the habits with another id and the
  entries of another habit are the ones of the state before, in their order.
\<close>

theorem deleteHabit_cascade:
  "(\<forall>h \<in> set (habits (handleDeleteHabit True i st)). habit_id h \<noteq> i) \<and>
   (\<forall>e \<in> set (entries (handleDeleteHabit True i st)). habitId e \<noteq> i) \<and>
   filter (\<lambda>h. habit_id h \<noteq> i) (habits (handleDeleteHabit True i st)) =
     filter (\<lambda>h. habit_id h \<noteq> i) (habits st) \<and>
   filter (\<lambda>e. habitId e \<noteq> i) (entries (handleDeleteHabit True i st)) =
     filter (\<lambda>e. habitId e \<noteq> i) (entries st)"
  by (simp add: handleDeleteHabit_def)

subsection \<open>Entries of a habit that does not exist\<close>

lemma getEntry_None_iff:
  "getEntry st hId d = None \<longleftrightarrow> \<not> (\<exists>e \<in> set (entries st). habitId e = hId \<and> date e = d)"
  by (auto simp: getEntry_def find_None_iff)

lemma getEntry_handleDeleteHabit_same: "getEntry (handleDeleteHabit True hId st) hId d = None"
  by (simp add: getEntry_None_iff handleDeleteHabit_def)

lemma entry_survives_op:
  assumes present: "getEntry st hId d \<noteq> None"
    and other: "op \<noteq> DeleteHabit True hId"
  shows "getEntry (applyOp st op) hId d \<noteq> None"
proof (cases op)
  case (AddHabit i nf tf)
  with present show ?thesis
    by (simp add: getEntry_def entries_handleAddHabit)
next
  case (UpdateHabit nf tf)
  with present show ?thesis
    by (simp add: getEntry_def entries_handleUpdateHabit)
next
  case (DeleteHabit c i)
  with other have "\<not> c \<or> i \<noteq> hId"
    by auto
  with present DeleteHabit show ?thesis
    by (auto simp: getEntry_None_iff entries_handleDeleteHabit)
next
  case (UpsertEntry hId' d' s t n)
  from present obtain e where e: "e \<in> set (entries st)" "habitId e = hId" "date e = d"
    by (auto simp: getEntry_None_iff)
  show ?thesis
  proof (cases "hId' = hId \<and> d' = d")
    case True
    with UpsertEntry show ?thesis
      by (simp add: getEntry_updateEntry)
  next
    case False
    with e have "e \<in> set (entries (updateEntry hId' d' s t n st))"
      unfolding entries_updateEntry by auto
    with e UpsertEntry show ?thesis
      by (auto simp: getEntry_None_iff)
  qed
qed

text \<open>
  Claim C10. \<open>updateEntry\<close> stores the entry under any habit id, whether a habit has
  that id or not, and \<open>getEntry\<close> returns it. A store operation after which an
  entry of \<open>(hId, d)\<close> is no longer found is the confirmed deletion of the habit
  \<open>hId\<close>, and that deletion does remove it.
\<close>

theorem upsert_has_no_referential_check:
  "getEntry (updateEntry hId d s t n st) hId d =
     Some \<lparr>habitId = hId, date = d, status = s, timeSpent = t, notes = n\<rparr> \<and>
   (getEntry st' hId d \<noteq> None \<and> getEntry (applyOp st' op) hId d = None
      \<longrightarrow> op = DeleteHabit True hId) \<and>
   getEntry (handleDeleteHabit True hId st') hId d = None"
  using entry_survives_op [of st' hId d op]
  by (auto simp only: getEntry_updateEntry getEntry_handleDeleteHabit_same)

text \<open>
  An entry logged for the id \<open>ghost\<close>, which no habit of the example has, is found,
  and is gone after the habit \<open>ghost\<close> is deleted.
\<close>

theorem upsert_has_no_referential_check_witness:
  "''ghost'' \<notin> habit_id ` set (habits exampleState) \<and>
   getEntry (updateEntry ''ghost'' ''2024-01-05'' StatusDone (num 5) None exampleState)
       ''ghost'' ''2024-01-05'' \<noteq> None \<and>
   getEntry (applyOp (updateEntry ''ghost'' ''2024-01-05'' StatusDone (num 5) None exampleState)
       (DeleteHabit True ''ghost'')) ''ghost'' ''2024-01-05'' = None"
proof -
  let ?st = "updateEntry ''ghost'' ''2024-01-05'' StatusDone (num 5) None exampleState"
  have no_habit: "''ghost'' \<notin> habit_id ` set (habits exampleState)"
    by (simp add: exampleState_def defaultHabits_def)
  from upsert_has_no_referential_check [of "''ghost''" "''2024-01-05''" StatusDone "num 5" None exampleState ?st]
  have "getEntry ?st ''ghost'' ''2024-01-05'' \<noteq> None"
    and "getEntry (handleDeleteHabit True ''ghost'' ?st) ''ghost'' ''2024-01-05'' = None"
    by simp_all
  with no_habit show ?thesis
    by simp
qed

text \<open>
  Deleting the habit 2 of the example, after the first three operations: two habits
  and the entry of the habit 1 are left.
\<close>

theorem deleteHabit_cascade_witness:
  "habits (handleDeleteHabit True ''2'' (run exampleState (take 3 exampleOps))) =
     [\<lparr>habit_id = ''1'', name = ''Exercise'', targetTime = num 30, color = None\<rparr>,
      \<lparr>habit_id = ''3'', name = ''Meditation'', targetTime = num 10, color = None\<rparr>] \<and>
   entries (handleDeleteHabit True ''2'' (run exampleState (take 3 exampleOps))) =
     [\<lparr>habitId = ''1'', date = ''2024-01-05'', status = StatusFailed, timeSpent = num 10, notes = None\<rparr>]"
proof -
  let ?st = "run exampleState (take 3 exampleOps)"
  have h: "habits ?st = defaultHabits"
    by (simp add: run_def exampleOps_def exampleState_def updateEntry_def)
  have e: "entries ?st =
     [\<lparr>habitId = ''2'', date = ''2024-01-05'', status = StatusFailed, timeSpent = num 5, notes = Some ''tired''\<rparr>,
      \<lparr>habitId = ''1'', date = ''2024-01-05'', status = StatusFailed, timeSpent = num 10, notes = None\<rparr>]"
    by (simp add: run_def exampleOps_def exampleState_def updateEntry_def)
  note cascade = deleteHabit_cascade [of "''2''" ?st]
  from cascade have "\<forall>h \<in> set (habits (handleDeleteHabit True ''2'' ?st)). habit_id h \<noteq> ''2''"
    by (rule conjunct1)
  then have hs: "filter (\<lambda>h. habit_id h \<noteq> ''2'') (habits (handleDeleteHabit True ''2'' ?st)) =
      habits (handleDeleteHabit True ''2'' ?st)"
    by (rule filter_True)
  from cascade have "\<forall>e \<in> set (entries (handleDeleteHabit True ''2'' ?st)). habitId e \<noteq> ''2''"
    by (rule conjunct2 [THEN conjunct1])
  then have es: "filter (\<lambda>e. habitId e \<noteq> ''2'') (entries (handleDeleteHabit True ''2'' ?st)) =
      entries (handleDeleteHabit True ''2'' ?st)"
    by (rule filter_True)
  from cascade hs es
  have "habits (handleDeleteHabit True ''2'' ?st) = filter (\<lambda>h. habit_id h \<noteq> ''2'') (habits ?st)"
    and "entries (handleDeleteHabit True ''2'' ?st) = filter (\<lambda>e. habitId e \<noteq> ''2'') (entries ?st)"
    by metis+
  then show ?thesis
    unfolding h e by (simp add: defaultHabits_def)
qed

section \<open>Properties of the Numbers\<close>

subsection \<open>The value of a Number\<close>

text \<open>
  \<open>Finite m e\<close> denotes the rational \<open>m \<sqdot> 2\<^sup>e\<close>. Normalising keeps the value, and the
  Number of an integer denotes that integer.
\<close>

lemma normalise_value:
  "\<exists>m' e'. normalise m e = Finite m' e' \<and> (of_int m' * 2 powi e' :: rat) = of_int m * 2 powi e"
proof (induction m e rule: normalise.induct)
  case (1 m e)
  show ?case
  proof (cases "m = 0")
    case True
    then show ?thesis
      by (simp add: normalise.simps)
  next
    case nonzero: False
    show ?thesis
    proof (cases "even m")
      case True
      with nonzero 1 obtain m' e' where
        step: "normalise (m div 2) (e + 1) = Finite m' e'"
          "(of_int m' * 2 powi e' :: rat) = of_int (m div 2) * 2 powi (e + 1)"
        by blast
      from True have "(of_int (m div 2) :: rat) * 2 = of_int m"
        by (metis dvd_div_mult_self of_int_mult of_int_numeral)
      then have "(of_int (m div 2) * 2 powi (e + 1) :: rat) = of_int m * 2 powi e"
        by (simp add: power_int_add_1' mult.assoc [symmetric])
      with step nonzero True show ?thesis
        by (simp add: normalise.simps [of m e])
    next
      case False
      with nonzero show ?thesis
        by (simp add: normalise.simps [of m e])
    qed
  qed
qed

lemma num_value: "\<exists>m e. num n = Finite m e \<and> (of_int m * 2 powi e :: rat) = of_int n"
  using normalise_value [of n 0] by (simp add: num_def)

text \<open>The bit length and the binary logarithm of a quotient.\<close>

lemma bitLength_bounds: "0 < n \<Longrightarrow> 2 ^ (bitLength n - 1) \<le> n \<and> n < 2 ^ bitLength n"
proof (induction n rule: bitLength.induct)
  case (1 n)
  show ?case
  proof (cases "n div 2 = 0")
    case True
    with "1.prems" have "n = 1"
      by (simp add: div_eq_0_iff) 
    moreover have "bitLength (Suc 0) = Suc 0"
      by (simp add: bitLength.simps [of "Suc 0"] bitLength.simps [of 0])
    ultimately show ?thesis
      by simp
  next
    case False
    with "1.prems" "1.IH" have IH: "2 ^ (bitLength (n div 2) - 1) \<le> n div 2" "n div 2 < 2 ^ bitLength (n div 2)"
      by simp_all
    from False have pos: "0 < bitLength (n div 2)"
      by (simp add: bitLength.simps [of "n div 2"])
    have bl: "bitLength n = Suc (bitLength (n div 2))"
      using "1.prems" by (simp add: bitLength.simps [of n])
    from IH(1) have "2 * 2 ^ (bitLength (n div 2) - 1) \<le> n"
      by linarith
    with pos have lower: "2 ^ (bitLength n - 1) \<le> n"
      unfolding bl by (cases "bitLength (n div 2)") simp_all
    from IH(2) have upper: "n < 2 ^ bitLength n"
      unfolding bl by simp
    from lower upper show ?thesis
      by blast
  qed
qed

lemma bitLength_bounds_rat:
  assumes "0 < N"
  shows "(2::rat) powi (int (bitLength (nat N)) - 1) \<le> of_int N"
    and "of_int N < (2::rat) powi (int (bitLength (nat N)))"
proof -
  let ?b = "bitLength (nat N)"
  from assms have pos: "0 < nat N"
    by simp
  from bitLength_bounds [OF pos] have lo: "2 ^ (?b - 1) \<le> nat N" and hi: "nat N < 2 ^ ?b"
    by simp_all
  from hi have "0 < ?b"
    using pos by (cases ?b) simp_all
  then have idx: "int ?b - 1 = int (?b - 1)"
    by simp
  from lo have "(of_nat (2 ^ (?b - 1)) :: rat) \<le> of_nat (nat N)"
    by (simp only: of_nat_le_iff)
  with assms show "(2::rat) powi (int ?b - 1) \<le> of_int N"
    unfolding idx by simp
  from hi have "(of_nat (nat N) :: rat) < of_nat (2 ^ ?b)"
    by (simp only: of_nat_less_iff)
  with assms show "of_int N < (2::rat) powi (int ?b)"
    by simp
qed

lemma floorLog2_test:
  assumes "0 < N" "0 < D"
  shows "(if 0 \<le> k then D * 2 ^ nat k \<le> N else D \<le> N * 2 ^ nat (- k)) \<longleftrightarrow>
         (2::rat) powi k * of_int D \<le> of_int N"
proof (cases "0 \<le> k")
  case True
  have "(D * 2 ^ nat k \<le> N) = ((of_int (D * 2 ^ nat k) :: rat) \<le> of_int N)"
    by (simp only: of_int_le_iff)
  with True show ?thesis
    by (simp add: power_int_def mult.commute)
next
  case False
  have pos: "(0::rat) < 2 ^ nat (- k)"
    by simp
  have "(D \<le> N * 2 ^ nat (- k)) = ((of_int D :: rat) \<le> of_int (N * 2 ^ nat (- k)))"
    by (simp only: of_int_le_iff)
  also have "\<dots> = ((of_int D :: rat) \<le> of_int N * 2 ^ nat (- k))"
    by simp
  also have "\<dots> = ((of_int D :: rat) / 2 ^ nat (- k) \<le> of_int N)"
    using pos by (simp add: pos_divide_le_eq)
  finally show ?thesis
    using False by (simp add: power_int_def field_simps)
qed

lemma floorLog2_bounds:
  assumes N: "0 < N" and D: "0 < D"
  shows "(2::rat) powi (floorLog2 N D) * of_int D \<le> of_int N"
    and "of_int N < (2::rat) powi (floorLog2 N D + 1) * of_int D"
proof -
  define k where "k = int (bitLength (nat N)) - int (bitLength (nat D))"
  note bN = bitLength_bounds_rat [OF N] and bD = bitLength_bounds_rat [OF D]
  have e: "floorLog2 N D = (if (2::rat) powi k * of_int D \<le> of_int N then k else k - 1)"
    unfolding floorLog2_def Let_def k_def [symmetric] floorLog2_test [OF N D] ..
  have Dpos: "(0::rat) < of_int D"
    using D by simp
  have up: "of_int N < (2::rat) powi (k + 1) * of_int D"
  proof -
    have "(2::rat) powi (int (bitLength (nat N))) = 2 powi (k + 1) * 2 powi (int (bitLength (nat D)) - 1)"
      by (simp add: k_def flip: power_int_add)
    also have "\<dots> \<le> 2 powi (k + 1) * of_int D"
      using bD(1) by (intro mult_left_mono) simp_all
    finally show ?thesis
      using bN(2) by linarith
  qed
  have low: "(2::rat) powi (k - 1) * of_int D \<le> of_int N"
  proof -
    have "(2::rat) powi (k - 1) * of_int D \<le> 2 powi (k - 1) * 2 powi (int (bitLength (nat D)))"
      using bD(2) by (intro mult_left_mono) simp_all
    also have "\<dots> = 2 powi (k - 1 + int (bitLength (nat D)))"
      by (subst power_int_add) simp_all
    also have "\<dots> = 2 powi (int (bitLength (nat N)) - 1)"
      by (simp add: k_def)
    finally show ?thesis
      using bN(1) by linarith
  qed
  show "(2::rat) powi (floorLog2 N D) * of_int D \<le> of_int N"
    unfolding e using low by simp
  show "of_int N < (2::rat) powi (floorLog2 N D + 1) * of_int D"
    unfolding e using up by (simp add: not_le)
qed

subsection \<open>The error of a rounding\<close>

text \<open>
  \<open>roundHalfEven\<close> is within a half of the quotient, and on the side of every integer
  that the quotient is on.
\<close>

lemma roundHalfEven_cases:
  assumes D: "0 < D"
  shows "\<bar>of_int (roundHalfEven N D) - (of_int N / of_int D :: rat)\<bar> \<le> 1 / 2"
    and "of_int j \<le> (of_int N / of_int D :: rat) \<Longrightarrow> j \<le> roundHalfEven N D"
    and "(of_int N / of_int D :: rat) \<le> of_int j \<Longrightarrow> roundHalfEven N D \<le> j"
proof -
  define f where "f = N div D"
  define r where "r = N mod D"
  have N: "N = f * D + r"
    by (simp add: f_def r_def)
  have r: "0 \<le> r" "r < D"
    using D by (simp_all add: r_def)
  have Dr: "(0::rat) < of_int D"
    using D by simp
  have q: "(of_int N / of_int D :: rat) = of_int f + of_int r / of_int D"
    using Dr by (simp add: N field_simps)
  have frac: "(0::rat) \<le> of_int r / of_int D" "(of_int r / of_int D :: rat) < 1"
    using r Dr by simp_all
  have val: "roundHalfEven N D = (if 2 * r < D then f else if D < 2 * r then f + 1
      else if even f then f else f + 1)"
    by (simp add: roundHalfEven_def Let_def f_def r_def)
  have half: "(2 * r < D) = ((of_int r / of_int D :: rat) < 1 / 2)"
    "(D < 2 * r) = ((1 / 2 :: rat) < of_int r / of_int D)"
  proof -
    have "(2 * r < D) = ((of_int (2 * r) :: rat) < of_int D)"
      by (simp only: of_int_less_iff)
    then show "(2 * r < D) = ((of_int r / of_int D :: rat) < 1 / 2)"
      using Dr by (simp add: field_simps)
    have "(D < 2 * r) = ((of_int D :: rat) < of_int (2 * r))"
      by (simp only: of_int_less_iff)
    then show "(D < 2 * r) = ((1 / 2 :: rat) < of_int r / of_int D)"
      using Dr by (simp add: field_simps)
  qed
  show "\<bar>of_int (roundHalfEven N D) - (of_int N / of_int D :: rat)\<bar> \<le> 1 / 2"
    unfolding val q half using frac by (auto simp: abs_if)
  {
    assume "of_int j \<le> (of_int N / of_int D :: rat)"
    then have "(of_int j :: rat) < of_int f + 1"
      unfolding q using frac by linarith
    then have "(of_int j :: rat) < of_int (f + 1)"
      by simp
    then have "j < f + 1"
      by (simp only: of_int_less_iff)
    then show "j \<le> roundHalfEven N D"
      unfolding val by auto
  }
  {
    assume le: "(of_int N / of_int D :: rat) \<le> of_int j"
    then have "(of_int f :: rat) \<le> of_int j"
      unfolding q using frac by linarith
    then have fj: "f \<le> j"
      by (simp only: of_int_le_iff)
    have "f + 1 \<le> j" if "0 < r"
    proof -
      from that Dr have "(0::rat) < of_int r / of_int D"
        by simp
      with le have "(of_int f :: rat) < of_int j"
        unfolding q by linarith
      then have "f < j"
        by (simp only: of_int_less_iff)
      then show ?thesis by simp
    qed
    moreover have "0 < r" if "\<not> 2 * r < D"
      using that D by linarith
    ultimately show "roundHalfEven N D \<le> j"
      unfolding val using fj by auto
  }
qed

text \<open>
  In the range of the normal doubles, the double nearest to a quotient is finite and
  differs from it by at most the \<open>2\<^sup>-\<^sup>5\<^sup>3\<close>-th part of it.
\<close>

lemma roundToDouble_error:
  assumes N: "N \<noteq> 0" and D: "0 < D"
    and lo: "(2::rat) powi (- 1022) \<le> \<bar>of_int N / of_int D\<bar>"
    and hi: "\<bar>of_int N / of_int D\<bar> < (2::rat) powi 1023"
  shows "\<exists>m e. roundToDouble N D = Finite m e \<and>
           \<bar>of_int m * 2 powi e - (of_int N / of_int D :: rat)\<bar> \<le> \<bar>of_int N / of_int D\<bar> / 2 ^ 53"
proof -
  define a where "a = \<bar>N\<bar>"
  define x :: rat where "x = of_int a / of_int D"
  define E where "E = floorLog2 a D"
  define u where "u = max (E - 52) (- 1074)"
  define m where "m = (if 0 \<le> u then roundHalfEven a (D * 2 ^ nat u)
                       else roundHalfEven (a * 2 ^ nat (- u)) D)"
  have a: "0 < a"
    using N by (simp add: a_def)
  have Dr: "(0::rat) < of_int D"
    using D by simp
  have x: "x = \<bar>of_int N / of_int D\<bar>"
    using Dr by (simp add: x_def a_def abs_divide)
  from floorLog2_bounds [OF a D] have E_lo: "2 powi E \<le> x" and E_hi: "x < 2 powi (E + 1)"
    using Dr by (simp_all add: E_def x_def pos_le_divide_eq pos_divide_less_eq)
  have E1: "- 1022 \<le> E"
  proof (rule ccontr)
    assume "\<not> - 1022 \<le> E"
    then have "E + 1 \<le> - 1022"
      by simp
    then have "(2::rat) powi (E + 1) \<le> 2 powi (- 1022)"
      by (intro power_int_increasing) simp_all
    with E_hi lo x show False
      by linarith
  qed
  have E2: "E \<le> 1022"
  proof (rule ccontr)
    assume "\<not> E \<le> 1022"
    then have "1023 \<le> E"
      by simp
    then have "(2::rat) powi 1023 \<le> 2 powi E"
      by (intro power_int_increasing) simp_all
    with E_lo hi x show False
      by linarith
  qed
  have u: "u = E - 52"
    using E1 by (simp add: u_def)
  define q :: rat where "q = x / 2 powi u"
  have pu: "(0::rat) < 2 powi u"
    by simp
  obtain N' D' where m': "m = roundHalfEven N' D'" and D': "0 < D'"
    and q': "(of_int N' / of_int D' :: rat) = q"
  proof (cases "0 \<le> u")
    case True
    show ?thesis
    proof (rule that [of a "D * 2 ^ nat u"])
      show "m = roundHalfEven a (D * 2 ^ nat u)"
        using True by (simp add: m_def)
      show "0 < D * 2 ^ nat u"
        using D by simp
      show "(of_int a / of_int (D * 2 ^ nat u) :: rat) = q"
        using True by (simp add: q_def x_def power_int_def)
    qed
  next
    case False
    show ?thesis
    proof (rule that [of "a * 2 ^ nat (- u)" D])
      show "m = roundHalfEven (a * 2 ^ nat (- u)) D"
        using False by (simp add: m_def)
      show "0 < D" by (rule D)
      show "(of_int (a * 2 ^ nat (- u)) / of_int D :: rat) = q"
        using False by (simp add: q_def x_def power_int_def field_simps)
    qed
  qed
  have xq: "x = q * 2 powi u"
    by (simp add: q_def)
  have split: "(2::rat) powi E = 2 ^ 52 * 2 powi u"
  proof -
    have "E = 52 + u"
      by (simp add: u)
    then have "(2::rat) powi E = 2 powi (52 + u)"
      by (rule arg_cong)
    also have "\<dots> = 2 powi 52 * 2 powi u"
      by (subst power_int_add) simp_all
    finally show ?thesis by simp
  qed
  have split': "(2::rat) powi (E + 1) = 2 ^ 53 * 2 powi u"
  proof -
    have "E + 1 = 53 + u"
      by (simp add: u)
    then have "(2::rat) powi (E + 1) = 2 powi (53 + u)"
      by (rule arg_cong)
    also have "\<dots> = 2 powi 53 * 2 powi u"
      by (subst power_int_add) simp_all
    finally show ?thesis by simp
  qed
  from E_lo have q_lo: "2 ^ 52 \<le> q"
    unfolding split xq using pu by simp
  from E_hi have q_hi: "q < 2 ^ 53"
    unfolding split' xq using pu by simp
  have err: "\<bar>of_int m - q\<bar> \<le> 1 / 2"
    using roundHalfEven_cases(1) [OF D', where N = N'] by (simp add: q' m')
  have m_lo: "2 ^ 52 \<le> m"
    using roundHalfEven_cases(2) [OF D', where N = N' and j = "2 ^ 52"] q_lo
    by (simp add: q' m')
  have m_hi: "m \<le> 2 ^ 53"
    using roundHalfEven_cases(3) [OF D', where N = N' and j = "2 ^ 53"] q_hi
    by (simp add: q' m')
  have m_pos: "0 < m"
    using m_lo by (rule less_le_trans [rotated]) simp
  have bl: "int (bitLength (nat m)) \<le> 54"
  proof (rule ccontr)
    assume "\<not> int (bitLength (nat m)) \<le> 54"
    then have "54 \<le> int (bitLength (nat m)) - 1"
      by simp
    then have "(2::rat) powi 54 \<le> 2 powi (int (bitLength (nat m)) - 1)"
      by (intro power_int_increasing) simp_all
    also have "\<dots> \<le> of_int m"
      by (rule bitLength_bounds_rat(1) [OF m_pos])
    also have "\<dots> \<le> of_int (2 ^ 53)"
      using m_hi by (simp only: of_int_le_iff)
    finally show False
      by simp
  qed
  have no_overflow: "\<not> 1024 \<le> int (bitLength (nat m)) - 1 + u"
    using bl E2 u by simp
  have rd: "roundToDouble N D = normalise (if 0 < N then m else - m) u"
    unfolding roundToDouble_def Let_def
    unfolding a_def [symmetric] E_def [symmetric]
    unfolding u_def [symmetric]
    unfolding m_def [symmetric]
    using N no_overflow by simp
  from normalise_value [of "if 0 < N then m else - m" u] obtain m'' e'' where
    fin: "normalise (if 0 < N then m else - m) u = Finite m'' e''"
    and val: "(of_int m'' * 2 powi e'' :: rat) = of_int (if 0 < N then m else - m) * 2 powi u"
    by blast
  have bound: "1 / 2 * 2 powi u \<le> x / 2 ^ 53"
  proof -
    have "(2::rat) ^ 52 * 2 powi u \<le> x"
      unfolding xq using q_lo pu by simp
    then show ?thesis
      by simp
  qed
  have "\<bar>of_int m * 2 powi u - x\<bar> = \<bar>of_int m - q\<bar> * 2 powi u"
    unfolding xq using pu by (simp add: abs_mult flip: left_diff_distrib)
  also have "\<dots> \<le> 1 / 2 * 2 powi u"
    using err pu by (intro mult_right_mono) simp_all
  finally have mag: "\<bar>of_int m * 2 powi u - x\<bar> \<le> x / 2 ^ 53"
    using bound by linarith
  have "\<bar>of_int m'' * 2 powi e'' - (of_int N / of_int D :: rat)\<bar> = \<bar>of_int m * 2 powi u - x\<bar>"
  proof (cases "0 < N")
    case True
    then have "x = of_int N / of_int D"
      by (simp add: x_def a_def)
    with True val show ?thesis by simp
  next
    case False
    with N have "(of_int N / of_int D :: rat) = - x"
      by (simp add: x_def a_def)
    with False val show ?thesis
      by (simp add: abs_minus_commute)
  qed
  with mag fin rd x show ?thesis
    by simp
qed

text \<open>The quotient and the product of two doubles have the same relative error.\<close>

lemma pow2_quotient: "((2::rat) ^ nat (e - e')) / 2 ^ nat (e' - e) = 2 powi (e - e')"
  by (cases "e' \<le> e") (simp_all add: power_int_def power_one_over)

lemma sgn_quotient: "m' \<noteq> 0 \<Longrightarrow> (of_int (sgn m' * m) / of_int \<bar>m'\<bar> :: rat) = of_int m / of_int m'"
  by (cases "0 < m'") (simp_all add: sgn_if)

lemma js_div_error:
  assumes m: "m \<noteq> 0" and m': "m' \<noteq> 0"
    and lo: "(2::rat) powi (- 1022) \<le> \<bar>(of_int m * 2 powi e) / (of_int m' * 2 powi e')\<bar>"
    and hi: "\<bar>(of_int m * 2 powi e) / (of_int m' * 2 powi e')\<bar> < (2::rat) powi 1023"
  shows "\<exists>k j. js_div (Finite m e) (Finite m' e') = Finite k j \<and>
           \<bar>of_int k * 2 powi j - (of_int m * 2 powi e) / (of_int m' * 2 powi e')\<bar>
             \<le> \<bar>(of_int m * 2 powi e) / (of_int m' * 2 powi e' :: rat)\<bar> / 2 ^ 53"
proof -
  define N where "N = sgn m' * m * 2 ^ nat (e - e')"
  define D where "D = \<bar>m'\<bar> * 2 ^ nat (e' - e)"
  have D: "0 < D"
    using m' by (simp add: D_def)
  have N: "N \<noteq> 0"
    using m m' by (simp add: N_def sgn_if)
  have "(of_int N / of_int D :: rat) =
      (of_int (sgn m' * m) / of_int \<bar>m'\<bar>) * (2 ^ nat (e - e') / 2 ^ nat (e' - e))"
    by (simp add: N_def D_def)
  also have "\<dots> = (of_int m / of_int m') * 2 powi (e - e')"
    by (simp only: pow2_quotient sgn_quotient [OF m'])
  also have "\<dots> = (of_int m * 2 powi e) / (of_int m' * 2 powi e')"
    by (simp add: power_int_diff)
  finally have ratio: "(of_int N / of_int D :: rat) = (of_int m * 2 powi e) / (of_int m' * 2 powi e')" .
  have "js_div (Finite m e) (Finite m' e') = roundToDouble N D"
    using m' by (simp add: N_def D_def)
  with roundToDouble_error [OF N D] lo hi show ?thesis
    unfolding ratio by simp
qed

lemma js_mul_error:
  assumes m: "m \<noteq> 0" and m': "m' \<noteq> 0"
    and lo: "(2::rat) powi (- 1022) \<le> \<bar>(of_int m * 2 powi e) * (of_int m' * 2 powi e')\<bar>"
    and hi: "\<bar>(of_int m * 2 powi e) * (of_int m' * 2 powi e')\<bar> < (2::rat) powi 1023"
  shows "\<exists>k j. js_mul (Finite m e) (Finite m' e') = Finite k j \<and>
           \<bar>of_int k * 2 powi j - (of_int m * 2 powi e) * (of_int m' * 2 powi e')\<bar>
             \<le> \<bar>(of_int m * 2 powi e) * (of_int m' * 2 powi e' :: rat)\<bar> / 2 ^ 53"
proof -
  define N where "N = m * m' * 2 ^ nat (e + e')"
  define D :: int where "D = 2 ^ nat (- (e + e'))"
  have D: "0 < D"
    by (simp add: D_def)
  have N: "N \<noteq> 0"
    using m m' by (simp add: N_def)
  have "(of_int N / of_int D :: rat) = of_int m * of_int m' * (2 ^ nat (e + e') / 2 ^ nat (- (e + e')))"
    by (simp add: N_def D_def)
  also have "(2::rat) ^ nat (e + e') / 2 ^ nat (- (e + e')) = 2 powi (e + e')"
    by (cases "0 \<le> e + e'") (simp_all add: power_int_def power_one_over)
  also have "of_int m * of_int m' * (2::rat) powi (e + e') = (of_int m * 2 powi e) * (of_int m' * 2 powi e')"
    by (simp add: power_int_add)
  finally have ratio: "(of_int N / of_int D :: rat) = (of_int m * 2 powi e) * (of_int m' * 2 powi e')" .
  have "js_mul (Finite m e) (Finite m' e') = roundToDouble N D"
    by (simp add: N_def D_def)
  with roundToDouble_error [OF N D] lo hi show ?thesis
    unfolding ratio by simp
qed

text \<open>\<open>Math.round\<close> of a finite Number is the floor of its value plus a half.\<close>

lemma Math_round_floor:
  "Math_round (Finite m e) = num \<lfloor>(of_int m * 2 powi e :: rat) + 1 / 2\<rfloor>"
proof (cases "0 \<le> e")
  case True
  then have eq: "(of_int m * 2 powi e :: rat) = of_int (m * 2 ^ nat e)"
    by (simp add: power_int_def)
  have "\<lfloor>(of_int m * 2 powi e :: rat) + 1 / 2\<rfloor> = m * 2 ^ nat e"
    unfolding eq by (rule floor_unique) simp_all
  with True show ?thesis
    by simp
next
  case False
  define n where "n = nat (- e)"
  from False have e: "e = - int n" and n1: "nat (1 - e) = Suc n"
    by (simp_all add: n_def)
  have "(of_int m * 2 powi e :: rat) + 1 / 2 = of_int (2 * m + 2 ^ n) / of_int (2 ^ Suc n)"
    by (simp add: e power_int_minus field_simps)
  then have "\<lfloor>(of_int m * 2 powi e :: rat) + 1 / 2\<rfloor> = (2 * m + 2 ^ n) div 2 ^ Suc n"
    by (simp only: floor_divide_of_int_eq)
  with False show ?thesis
    by (simp add: n_def [symmetric] n1)
qed

subsection \<open>The percentages\<close>

text \<open>
  A rational within the \<open>2\<^sup>-\<^sup>5\<^sup>1\<close>-th part of \<open>100 a / b\<close> rounds as \<open>100 a / b\<close>
  does, unless \<open>100 a / b\<close> lies exactly half-way between two integers, in which
  case it may round to the lower one.
\<close>

lemma nearest_integer:
  fixes a b :: int and p :: rat
  assumes b: "b \<noteq> 0" and a: "\<bar>a\<bar> \<le> 2 ^ 43"
    and close: "\<bar>p - 100 * of_int a / of_int b\<bar> \<le> \<bar>100 * of_int a / of_int b\<bar> / 2 ^ 51"
  shows "\<lfloor>p + 1 / 2\<rfloor> = spec_round (100 * of_int a / of_int b) \<or>
         (of_int \<lfloor>p + 1 / 2\<rfloor> :: rat) + 1 / 2 = 100 * of_int a / of_int b"
proof -
  define y :: rat where "y = 100 * of_int a / of_int b"
  define r where "r = \<lfloor>p + 1 / 2\<rfloor>"
  define B :: rat where "B = of_int \<bar>b\<bar>"
  define c where "c = a * sgn b"
  have B: "0 < B"
    using b by (simp add: B_def)
  have yB: "y * B = of_int (100 * c)"
    using b by (simp add: y_def B_def c_def sgn_if)
  have "\<bar>y\<bar> * B = 100 * of_int \<bar>a\<bar>"
    using b by (simp add: y_def B_def abs_mult abs_divide)
  also have "\<dots> \<le> 100 * of_int (2 ^ 43)"
    using a by (simp only: mult_left_mono of_int_le_iff)
  finally have yB_le: "\<bar>y\<bar> * B \<le> 100 * 2 ^ 43"
    by simp
  have "\<bar>p - y\<bar> * B \<le> \<bar>y\<bar> / 2 ^ 51 * B"
    using close B unfolding y_def [symmetric] by (intro mult_right_mono) simp_all
  also have "\<dots> = \<bar>y\<bar> * B / 2 ^ 51"
    by simp
  also have "\<dots> \<le> 100 * 2 ^ 43 / 2 ^ 51"
    using yB_le by (intro divide_right_mono) simp_all
  also have "\<dots> < 1 / 2"
    by simp
  finally have near: "\<bar>p - y\<bar> * B < 1 / 2" .
  have r: "of_int r \<le> p + 1 / 2" "p + 1 / 2 < of_int r + 1"
    unfolding r_def by linarith+
  have upper: "of_int r \<le> y + 1 / 2"
  proof (rule ccontr)
    assume "\<not> of_int r \<le> y + 1 / 2"
    then have "0 < (of_int r - 1 / 2 - y) * (2 * B)"
      using B by simp
    also have "(of_int r - 1 / 2 - y) * (2 * B) = of_int ((2 * r - 1) * \<bar>b\<bar> - 200 * c)"
      using yB by (simp add: B_def algebra_simps)
    finally have "0 < (2 * r - 1) * \<bar>b\<bar> - 200 * c"
      by (simp only: of_int_0_less_iff)
    then have "1 \<le> (2 * r - 1) * \<bar>b\<bar> - 200 * c"
      by simp
    then have "(1::rat) \<le> of_int ((2 * r - 1) * \<bar>b\<bar> - 200 * c)"
      by (simp only: of_int_1_le_iff)
    also have "of_int ((2 * r - 1) * \<bar>b\<bar> - 200 * c) = (of_int r - 1 / 2 - y) * (2 * B)"
      using yB by (simp add: B_def algebra_simps)
    finally have "1 / 2 \<le> (of_int r - 1 / 2 - y) * B"
      by simp
    moreover have "(p - y) * B \<le> \<bar>p - y\<bar> * B"
      using B by (intro mult_right_mono) simp_all
    with near have "(p - y) * B < 1 / 2"
      by linarith
    ultimately have "(p - y) * B < (of_int r - 1 / 2 - y) * B"
      by linarith
    with B have "p - y < of_int r - 1 / 2 - y"
      by (simp only: mult_less_cancel_right_pos)
    with r(1) show False
      by linarith
  qed
  have lower: "y - 1 / 2 \<le> of_int r"
  proof (rule ccontr)
    assume "\<not> y - 1 / 2 \<le> of_int r"
    then have "0 < (y - 1 / 2 - of_int r) * (2 * B)"
      using B by simp
    also have "(y - 1 / 2 - of_int r) * (2 * B) = of_int (200 * c - (2 * r + 1) * \<bar>b\<bar>)"
      using yB by (simp add: B_def algebra_simps)
    finally have "0 < 200 * c - (2 * r + 1) * \<bar>b\<bar>"
      by (simp only: of_int_0_less_iff)
    then have "1 \<le> 200 * c - (2 * r + 1) * \<bar>b\<bar>"
      by simp
    then have "(1::rat) \<le> of_int (200 * c - (2 * r + 1) * \<bar>b\<bar>)"
      by (simp only: of_int_1_le_iff)
    also have "of_int (200 * c - (2 * r + 1) * \<bar>b\<bar>) = (y - 1 / 2 - of_int r) * (2 * B)"
      using yB by (simp add: B_def algebra_simps)
    finally have "1 / 2 \<le> (y - 1 / 2 - of_int r) * B"
      by simp
    moreover have "(y - p) * B \<le> \<bar>p - y\<bar> * B"
      using B by (intro mult_right_mono) simp_all
    with near have "(y - p) * B < 1 / 2"
      by linarith
    ultimately have "(y - p) * B < (y - 1 / 2 - of_int r) * B"
      by linarith
    with B have "y - p < y - 1 / 2 - of_int r"
      by (simp only: mult_less_cancel_right_pos)
    with r(2) show False
      by linarith
  qed
  show ?thesis
  proof (cases "of_int r + 1 / 2 = y")
    case True
    then show ?thesis
      by (simp add: r_def y_def)
  next
    case False
    with lower have "y + 1 / 2 < of_int r + 1"
      by linarith
    with upper have "\<lfloor>y + 1 / 2\<rfloor> = r"
      by (intro floor_unique) simp_all
    then show ?thesis
      by (simp add: spec_round_def r_def y_def)
  qed
qed

text \<open>
  The percentage that the components compute from two integers \<open>t\<close> and \<open>g\<close>,
  \<open>Math.round((t / g) * 100)\<close>, against \<open>round(t / g * 100)\<close> on the exact quotient:
  they agree, except that the code may show \<open>r\<close> when the quotient is exactly
  \<open>r + 1/2\<close>.
\<close>

lemma roundToDouble_zero: "roundToDouble 0 D = Finite 0 0"
  by (simp add: roundToDouble_def)

lemma num_zero: "num 0 = Finite 0 0"
  by (simp add: num_def normalise.simps)

lemma percent_nearest:
  assumes g: "g \<noteq> 0" and t: "\<bar>t\<bar> \<le> 2 ^ 43" and g53: "\<bar>g\<bar> \<le> 2 ^ 53"
  shows "\<exists>r. Math_round (js_mul (js_div (num t) (num g)) (num 100)) = num r \<and>
           (r = spec_round (100 * of_int t / of_int g) \<or>
            (of_int r :: rat) + 1 / 2 = 100 * of_int t / of_int g)"
proof -
  from num_value [of t] obtain mt et where
    nt: "num t = Finite mt et" and vt: "(of_int mt * 2 powi et :: rat) = of_int t"
    by blast
  from num_value [of g] obtain mg eg where
    ng: "num g = Finite mg eg" and vg: "(of_int mg * 2 powi eg :: rat) = of_int g"
    by blast
  from num_value [of 100] obtain mh eh where
    nh: "num 100 = Finite mh eh" and vh: "(of_int mh * 2 powi eh :: rat) = 100"
    by auto
  from vg g have mg: "mg \<noteq> 0"
    by auto
  from vh have mh: "mh \<noteq> 0"
    by auto
  show ?thesis
  proof (cases "t = 0")
    case True
    with vt have "mt = 0"
      by simp
    with mg have "js_div (num t) (num g) = Finite 0 0"
      by (simp add: nt ng roundToDouble_zero)
    then have "js_mul (js_div (num t) (num g)) (num 100) = Finite 0 0"
      by (simp add: nh roundToDouble_zero)
    then have "Math_round (js_mul (js_div (num t) (num g)) (num 100)) = num \<lfloor>(1 / 2 :: rat)\<rfloor>"
      by (simp only: Math_round_floor) simp
    moreover have "\<lfloor>(1 / 2 :: rat)\<rfloor> = 0"
      by (simp add: floor_eq_iff)
    ultimately show ?thesis
      using True by (intro exI [of _ 0]) (simp add: spec_round_def)
  next
    case False
    define x :: rat where "x = of_int t / of_int g"
    from False vt have mt: "mt \<noteq> 0"
      by auto
    have gr: "(1::rat) \<le> \<bar>of_int g\<bar>" "\<bar>of_int g :: rat\<bar> \<le> 2 ^ 53"
    proof -
      from g have "1 \<le> \<bar>g\<bar>" by simp
      then have "(of_int 1 :: rat) \<le> of_int \<bar>g\<bar>"
        by (simp only: of_int_le_iff)
      then show "(1::rat) \<le> \<bar>of_int g\<bar>" by simp
      from g53 have "(of_int \<bar>g\<bar> :: rat) \<le> of_int (2 ^ 53)"
        by (simp only: of_int_le_iff)
      then show "\<bar>of_int g :: rat\<bar> \<le> 2 ^ 53" by simp
    qed
    have tr: "(1::rat) \<le> \<bar>of_int t\<bar>" "\<bar>of_int t :: rat\<bar> \<le> 2 ^ 43"
    proof -
      from False have "1 \<le> \<bar>t\<bar>" by simp
      then have "(of_int 1 :: rat) \<le> of_int \<bar>t\<bar>"
        by (simp only: of_int_le_iff)
      then show "(1::rat) \<le> \<bar>of_int t\<bar>" by simp
      from t have "(of_int \<bar>t\<bar> :: rat) \<le> of_int (2 ^ 43)"
        by (simp only: of_int_le_iff)
      then show "\<bar>of_int t :: rat\<bar> \<le> 2 ^ 43" by simp
    qed
    have ax: "\<bar>x\<bar> = \<bar>of_int t\<bar> / \<bar>of_int g\<bar>"
      by (simp add: x_def abs_divide)
    have x_lo: "1 / 2 ^ 53 \<le> \<bar>x\<bar>"
    proof -
      have "1 / 2 ^ 53 \<le> 1 / \<bar>of_int g :: rat\<bar>"
        using gr by (intro divide_left_mono) simp_all
      also have "\<dots> \<le> \<bar>of_int t\<bar> / \<bar>of_int g :: rat\<bar>"
        using tr(1) gr(1) by (intro divide_right_mono) simp_all
      finally show ?thesis
        by (simp add: ax)
    qed
    have x_hi: "\<bar>x\<bar> \<le> 2 ^ 43"
    proof -
      have "\<bar>of_int t\<bar> / \<bar>of_int g :: rat\<bar> \<le> \<bar>of_int t\<bar> / 1"
        using gr(1) by (intro divide_left_mono) simp_all
      with tr(2) show ?thesis
        by (simp add: ax)
    qed
    have tiny: "(2::rat) powi (- 1022) \<le> 1 / 2 ^ 54"
    proof -
      have "(2::rat) powi (- 1022) \<le> 2 powi (- 54)"
        by (intro power_int_increasing) simp_all
      then show ?thesis
        by (simp add: power_int_minus_divide)
    qed
    have tiny53: "(2::rat) powi (- 1022) \<le> 1 / 2 ^ 53"
    proof -
      have "(2::rat) powi (- 1022) \<le> 2 powi (- 53)"
        by (intro power_int_increasing) simp_all
      then show ?thesis
        by (simp add: power_int_minus_divide)
    qed
    have huge43: "(2::rat) ^ 43 < 2 powi 1023"
    proof -
      have "(2::rat) powi 43 < 2 powi 1023"
        by (intro power_int_strict_increasing) simp_all
      then show ?thesis
        by simp
    qed
    have huge: "(2::rat) ^ 52 \<le> 2 powi 1023"
    proof -
      have "(2::rat) powi 52 \<le> 2 powi 1023"
        by (intro power_int_increasing) simp_all
      then show ?thesis
        by simp
    qed
    have quotient: "(of_int mt * 2 powi et) / (of_int mg * 2 powi eg) = x"
      by (simp add: vt vg x_def)
    have "\<exists>k j. js_div (Finite mt et) (Finite mg eg) = Finite k j \<and>
           \<bar>of_int k * 2 powi j - (of_int mt * 2 powi et) / (of_int mg * 2 powi eg)\<bar>
             \<le> \<bar>(of_int mt * 2 powi et) / (of_int mg * 2 powi eg :: rat)\<bar> / 2 ^ 53"
    proof (rule js_div_error [OF mt mg])
      show "(2::rat) powi (- 1022) \<le> \<bar>(of_int mt * 2 powi et) / (of_int mg * 2 powi eg)\<bar>"
        unfolding quotient using tiny53 x_lo by (rule order_trans)
      show "\<bar>(of_int mt * 2 powi et) / (of_int mg * 2 powi eg)\<bar> < (2::rat) powi 1023"
        unfolding quotient using x_hi huge43 by (rule le_less_trans)
    qed
    then obtain k j where
      d: "js_div (Finite mt et) (Finite mg eg) = Finite k j"
      and d_err: "\<bar>of_int k * 2 powi j - x\<bar> \<le> \<bar>x\<bar> / 2 ^ 53"
      unfolding quotient by blast
    define v :: rat where "v = of_int k * 2 powi j"
    from d_err have v_close: "\<bar>v - x\<bar> \<le> \<bar>x\<bar> / 2 ^ 53"
      by (simp add: v_def)
    have x_pos: "0 < \<bar>x\<bar>"
      using x_lo by (rule less_le_trans [rotated]) simp
    have v_lo: "\<bar>x\<bar> / 2 \<le> \<bar>v\<bar>"
    proof -
      have "\<bar>x\<bar> / 2 ^ 53 \<le> \<bar>x\<bar> / 2"
        using x_pos by (intro divide_left_mono) simp_all
      with v_close show ?thesis
        by linarith
    qed
    have v_hi: "\<bar>v\<bar> \<le> \<bar>x\<bar> + \<bar>x\<bar> / 2 ^ 53"
      using v_close by linarith
    have v_hi2: "\<bar>v\<bar> \<le> 2 * \<bar>x\<bar>"
    proof -
      have "\<bar>x\<bar> / 2 ^ 53 \<le> \<bar>x\<bar> / 1"
        using x_pos by (intro divide_left_mono) simp_all
      with v_hi show ?thesis by simp
    qed
    from v_lo x_pos have "v \<noteq> 0"
      by auto
    then have k: "k \<noteq> 0"
      by (auto simp: v_def)
    have product: "(of_int k * 2 powi j) * (of_int mh * 2 powi eh) = v * 100"
      by (simp add: v_def vh)
    have "\<exists>k' j'. js_mul (Finite k j) (Finite mh eh) = Finite k' j' \<and>
           \<bar>of_int k' * 2 powi j' - (of_int k * 2 powi j) * (of_int mh * 2 powi eh)\<bar>
             \<le> \<bar>(of_int k * 2 powi j) * (of_int mh * 2 powi eh :: rat)\<bar> / 2 ^ 53"
    proof (rule js_mul_error [OF k mh])
      have "1 / 2 ^ 54 \<le> \<bar>x\<bar> / 2"
        using x_lo by simp
      also have "\<dots> \<le> \<bar>v\<bar>"
        by (rule v_lo)
      also have "\<dots> \<le> \<bar>v * 100\<bar>"
        by (simp add: abs_mult)
      finally have "1 / 2 ^ 54 \<le> \<bar>v * 100\<bar>" .
      with tiny show "(2::rat) powi (- 1022) \<le> \<bar>(of_int k * 2 powi j) * (of_int mh * 2 powi eh)\<bar>"
        unfolding product by (rule order_trans)
      have "\<bar>v * 100\<bar> = 100 * \<bar>v\<bar>"
        by (simp add: abs_mult)
      also have "\<dots> \<le> 100 * (2 * 2 ^ 43)"
        using v_hi2 x_hi by linarith
      also have "\<dots> < 2 ^ 52"
        by simp
      finally have "\<bar>v * 100\<bar> < 2 ^ 52" .
      then show "\<bar>(of_int k * 2 powi j) * (of_int mh * 2 powi eh)\<bar> < (2::rat) powi 1023"
        unfolding product using huge by (rule less_le_trans)
    qed
    then obtain k' j' where
      p: "js_mul (Finite k j) (Finite mh eh) = Finite k' j'"
      and p_err: "\<bar>of_int k' * 2 powi j' - v * 100\<bar> \<le> \<bar>v * 100\<bar> / 2 ^ 53"
      unfolding product by blast
    define w :: rat where "w = of_int k' * 2 powi j'"
    have "\<bar>w - 100 * x\<bar> \<le> \<bar>w - v * 100\<bar> + \<bar>100 * (v - x)\<bar>"
      using abs_triangle_ineq [of "w - v * 100" "100 * (v - x)"]
      by (simp add: algebra_simps)
    also have "\<dots> = \<bar>w - v * 100\<bar> + 100 * \<bar>v - x\<bar>"
      by (subst abs_mult) simp
    finally have "\<bar>w - 100 * x\<bar> \<le> \<bar>w - v * 100\<bar> + 100 * \<bar>v - x\<bar>" .
    also have "\<dots> \<le> 100 * \<bar>v\<bar> / 2 ^ 53 + 100 * (\<bar>x\<bar> / 2 ^ 53)"
      using p_err v_close by (simp add: w_def abs_mult)
    also have "\<dots> \<le> 100 * (2 * \<bar>x\<bar>) / 2 ^ 53 + 100 * (\<bar>x\<bar> / 2 ^ 53)"
      using v_hi2 by (simp add: divide_right_mono)
    also have "\<dots> \<le> 100 * \<bar>x\<bar> / 2 ^ 51"
      using x_pos by simp
    finally have "\<bar>w - 100 * of_int t / of_int g\<bar> \<le> \<bar>100 * of_int t / of_int g\<bar> / 2 ^ 51"
      by (simp add: x_def abs_mult abs_divide)
    from nearest_integer [OF g t this]
    have "\<lfloor>w + 1 / 2\<rfloor> = spec_round (100 * of_int t / of_int g) \<or>
          (of_int \<lfloor>w + 1 / 2\<rfloor> :: rat) + 1 / 2 = 100 * of_int t / of_int g" .
    moreover have "Math_round (js_mul (js_div (num t) (num g)) (num 100)) = num \<lfloor>w + 1 / 2\<rfloor>"
      by (simp only: nt ng nh d p Math_round_floor w_def)
    ultimately show ?thesis
      by blast
  qed
qed

lemma percent_round:
  assumes "g \<noteq> 0" and "\<bar>t\<bar> \<le> 2 ^ 43" and "\<bar>g\<bar> \<le> 2 ^ 53"
  shows "\<exists>r. Math_round (js_mul (js_div (num t) (num g)) (num 100)) = num r \<and>
           (r = spec_round (of_int t / of_int g * 100) \<or>
            (of_int r :: rat) + 1 / 2 = of_int t / of_int g * 100)"
proof -
  have "(100 * of_int t / of_int g :: rat) = of_int t / of_int g * 100"
    by simp
  with percent_nearest [OF assms] show ?thesis
    by simp
qed

subsection \<open>Numbers in a condition\<close>

lemma normalise_shape: "\<exists>m' e'. normalise m e = Finite m' e' \<and> (m' = 0 \<longrightarrow> e' = 0)"
proof (induction m e rule: normalise.induct)
  case (1 m e)
  show ?case
  proof (cases "m = 0")
    case True
    then show ?thesis
      by (simp add: normalise.simps)
  next
    case False
    show ?thesis
    proof (cases "even m")
      case True
      with False 1 have "\<exists>m' e'. normalise (m div 2) (e + 1) = Finite m' e' \<and> (m' = 0 \<longrightarrow> e' = 0)"
        by simp
      moreover from False True have "normalise m e = normalise (m div 2) (e + 1)"
        by (subst normalise.simps) simp
      ultimately show ?thesis
        by simp
    next
      case odd: False
      with False have "normalise m e = Finite m e"
        by (subst normalise.simps) simp
      with False show ?thesis
        by simp
    qed
  qed
qed

lemma ToBoolean_normalise: "ToBoolean (normalise m e) \<longleftrightarrow> normalise m e \<noteq> Finite 0 0"
  using normalise_shape [of m e] by (auto simp: ToBoolean_def)

text \<open>A rounded quotient is never \<open>NaN\<close>, and it is falsy when it is zero.\<close>

lemma roundToDouble_shape:
  "roundToDouble N D = PosInfinity \<or> roundToDouble N D = NegInfinity \<or>
   (\<exists>m e. roundToDouble N D = normalise m e)"
proof -
  define a where "a = \<bar>N\<bar>"
  define u where "u = max (floorLog2 a D - 52) (- 1074)"
  define m where "m = (if 0 \<le> u then roundHalfEven a (D * 2 ^ nat u)
                       else roundHalfEven (a * 2 ^ nat (- u)) D)"
  have "roundToDouble N D =
      (if N = 0 then Finite 0 0
       else if 1024 \<le> int (bitLength (nat m)) - 1 + u
            then (if 0 < N then PosInfinity else NegInfinity)
            else normalise (if 0 < N then m else - m) u)"
    unfolding roundToDouble_def Let_def m_def u_def a_def by (rule refl)
  moreover have "Finite 0 0 = normalise 0 0"
    by (simp add: normalise.simps)
  ultimately show ?thesis
    by metis
qed

lemma ToBoolean_roundToDouble:
  "roundToDouble N D \<noteq> NaN \<and> (ToBoolean (roundToDouble N D) \<longleftrightarrow> roundToDouble N D \<noteq> num 0)"
proof -
  consider "roundToDouble N D = PosInfinity" | "roundToDouble N D = NegInfinity"
    | m e where "roundToDouble N D = normalise m e"
    using roundToDouble_shape by blast
  then show ?thesis
  proof cases
    case 1
    then show ?thesis
      by (simp add: ToBoolean_def num_zero)
  next
    case 2
    then show ?thesis
      by (simp add: ToBoolean_def num_zero)
  next
    case 3
    from normalise_shape [of m e] obtain m' e' where
      "normalise m e = Finite m' e'" and "m' = 0 \<longrightarrow> e' = 0"
      by blast
    with 3 show ?thesis
      by (auto simp: ToBoolean_def num_zero)
  qed
qed

lemma ToBoolean_parseInt:
  "ToBoolean (parseInt s) \<longleftrightarrow> parseInt s \<noteq> NaN \<and> parseInt s \<noteq> num 0"
proof (cases "parseInt s = NaN")
  case True
  then show ?thesis
    by (simp add: ToBoolean_def)
next
  case False
  then obtain N where "parseInt s = roundToDouble N 1"
    unfolding parseInt_def Let_def by (auto split: if_splits)
  with False show ?thesis
    by (simp add: ToBoolean_roundToDouble)
qed

section \<open>Adding a habit\<close>

text \<open>The equations that evaluate the Numbers on numerals.\<close>

lemmas number_eval =
  num_def roundToDouble_def floorLog2_def roundHalfEven_def Let_def
  normalise.simps bitLength.simps

lemmas parseInt_eval = parseInt_def isWhiteSpace_def digitOf_def digitsNat_def

lemma parseInt_examples:
  "parseInt ''abc'' = NaN \<and> parseInt [] = NaN \<and> parseInt ''0'' = num 0 \<and>
   parseInt ''15'' = num 15 \<and> parseInt ''-5'' = num (- 5) \<and> parseInt '' 0x1F'' = num 31"
  by (simp add: parseInt_eval number_eval cong: let_weak_cong)

text \<open>
  An integer above \<open>2\<^sup>5\<^sup>3\<close> is read as the nearest double: \<open>2\<^sup>5\<^sup>3 + 1\<close> gives \<open>2\<^sup>5\<^sup>3\<close>.
\<close>

lemma parseInt_rounds: "parseInt ''9007199254740993'' = num 9007199254740992"
  by (simp add: parseInt_eval number_eval cong: let_weak_cong)

text \<open>
  The guard of \<open>handleAddHabit\<close> is the truthiness of the parsed target: a negative
  target passes it. Submitting the name \<open>Run\<close> with the target \<open>-5\<close> adds a habit
  whose target is \<open>-5\<close>.
\<close>

theorem addHabit_negative_target_counterexample:
  "parseInt ''-5'' = num (- 5) \<and>
   handleAddHabit ''k3j9x0q1z'' ''Run'' ''-5'' exampleState \<noteq> exampleState \<and>
   habits (handleAddHabit ''k3j9x0q1z'' ''Run'' ''-5'' exampleState) =
     defaultHabits @
     [\<lparr>habit_id = ''k3j9x0q1z'', name = ''Run'', targetTime = num (- 5), color = None\<rparr>]"
proof -
  have p: "parseInt ''-5'' = num (- 5)"
    using parseInt_examples by simp
  have t: "ToBoolean (num (- 5))"
    by (simp add: ToBoolean_def num_def normalise.simps)
  have h: "habits (handleAddHabit ''k3j9x0q1z'' ''Run'' ''-5'' exampleState) =
     defaultHabits @
     [\<lparr>habit_id = ''k3j9x0q1z'', name = ''Run'', targetTime = num (- 5), color = None\<rparr>]"
    by (simp add: handleAddHabit_def p t exampleState_def)
  have "habits (handleAddHabit ''k3j9x0q1z'' ''Run'' ''-5'' exampleState) \<noteq> habits exampleState"
    unfolding h by (simp add: exampleState_def)
  then have "handleAddHabit ''k3j9x0q1z'' ''Run'' ''-5'' exampleState \<noteq> exampleState"
    by auto
  with p h show ?thesis
    by simp
qed

text \<open>
  Claim C6, as amended. \<open>handleAddHabit\<close> leaves the state as it is when the name
  is empty or \<open>parseInt\<close> of the target field is \<open>NaN\<close> or zero. In every other
  case, a negative target included, it appends exactly one habit with the drawn id,
  the given name and the parsed target, and closes the dialog.
\<close>

theorem addHabit_guard:
  "(nameField = [] \<or> parseInt targetField = NaN \<or> parseInt targetField = num 0
      \<longrightarrow> handleAddHabit newId nameField targetField st = st) \<and>
   (nameField \<noteq> [] \<and> parseInt targetField = t \<and> t \<noteq> NaN \<and> t \<noteq> num 0
      \<longrightarrow> handleAddHabit newId nameField targetField st =
          st\<lparr>habits := habits st @
                 [\<lparr>habit_id = newId, name = nameField, targetTime = t, color = None\<rparr>],
             isAddingHabit := False\<rparr>)"
  by (auto simp: handleAddHabit_def Let_def ToBoolean_parseInt)

text \<open>
  An empty name, a target that is no number and the target 0 change nothing; the
  target 15 adds the habit.
\<close>

theorem addHabit_guard_witness:
  "handleAddHabit ''k3j9x0q1z'' [] ''15'' exampleState = exampleState \<and>
   handleAddHabit ''k3j9x0q1z'' ''Run'' ''abc'' exampleState = exampleState \<and>
   handleAddHabit ''k3j9x0q1z'' ''Run'' ''0'' exampleState = exampleState \<and>
   habits (handleAddHabit ''k3j9x0q1z'' ''Run'' ''15'' exampleState) =
     defaultHabits @
     [\<lparr>habit_id = ''k3j9x0q1z'', name = ''Run'', targetTime = num 15, color = None\<rparr>]"
proof -
  have nan: "parseInt ''abc'' = NaN" and zero: "parseInt ''0'' = num 0"
    and ok: "parseInt ''15'' = num 15"
    using parseInt_examples by simp_all
  have fifteen: "num 15 \<noteq> NaN" "num 15 \<noteq> num 0"
    by (simp_all add: num_def normalise.simps)
  note g = addHabit_guard [of _ _ "''k3j9x0q1z''" exampleState]
  from g [of "[]" "''15''"] have a: "handleAddHabit ''k3j9x0q1z'' [] ''15'' exampleState = exampleState"
    by simp
  from g [of "''Run''" "''abc''"] nan
  have b: "handleAddHabit ''k3j9x0q1z'' ''Run'' ''abc'' exampleState = exampleState"
    by simp
  from g [of "''Run''" "''0''"] zero
  have c: "handleAddHabit ''k3j9x0q1z'' ''Run'' ''0'' exampleState = exampleState"
    by simp
  from g [of "''Run''" "''15''" "num 15"] ok fifteen
  have d: "handleAddHabit ''k3j9x0q1z'' ''Run'' ''15'' exampleState =
      exampleState\<lparr>habits := habits exampleState @
                 [\<lparr>habit_id = ''k3j9x0q1z'', name = ''Run'', targetTime = num 15, color = None\<rparr>],
             isAddingHabit := False\<rparr>"
    by simp
  from a b c show ?thesis
    unfolding d by (simp add: exampleState_def)
qed
section \<open>Properties of the derived views\<close>

subsection \<open>The 30-day trend\<close>

lemma length_last30DaysFrom: "length (last30DaysFrom clock habit es n) = Suc n"
  by (induction n) simp_all

lemma nth_last30DaysFrom:
  "k \<le> n \<Longrightarrow> last30DaysFrom clock habit es n ! k = chartPoint (clock (n - k)) habit es (n - k)"
proof (induction n arbitrary: k)
  case 0
  then show ?case by simp
next
  case (Suc n)
  show ?case
  proof (cases k)
    case 0
    then show ?thesis by simp
  next
    case (Suc j)
    with Suc.prems have "j \<le> n" by simp
    with Suc.IH Suc show ?thesis by simp
  qed
qed

lemma format_yyyy_MM_dd_dayNo: "dayNo a = dayNo b \<Longrightarrow> format_yyyy_MM_dd a = format_yyyy_MM_dd b"
  by (simp add: format_yyyy_MM_dd_def getFullYear_def getMonth_def getDate_def)

lemma format_MMM_dd_dayNo: "dayNo a = dayNo b \<Longrightarrow> format_MMM_dd a = format_MMM_dd b"
  by (simp add: format_MMM_dd_def getMonth_def getDate_def)

text \<open>The point of an iteration depends on the reading of the clock through its day.\<close>

lemma chartPoint_dayNo:
  assumes "dayNo now1 = dayNo now2"
  shows "chartPoint now1 habit es i = chartPoint now2 habit es i"
proof -
  from assms have "dayNo (subDays now1 i) = dayNo (subDays now2 i)"
    by (simp add: subDays_def)
  then have "format_yyyy_MM_dd (subDays now1 i) = format_yyyy_MM_dd (subDays now2 i)"
    and "format_MMM_dd (subDays now1 i) = format_MMM_dd (subDays now2 i)"
    by (rule format_yyyy_MM_dd_dayNo, rule format_MMM_dd_dayNo)
  then show ?thesis
    by (simp add: chartPoint_def Let_def)
qed

lemma chartPoint_of_day:
  assumes "dayNo now = today"
  shows "chartPoint now habit es i =
     \<lparr>point_date = format_MMM_dd \<lparr>dayNo = today - int i, msOfDay = 0\<rparr>,
      point_timeSpent =
        (case find (\<lambda>e. habitId e = habit_id habit \<and>
                         date e = format_yyyy_MM_dd \<lparr>dayNo = today - int i, msOfDay = 0\<rparr>) es of
           None \<Rightarrow> num 0
         | Some e \<Rightarrow> if ToBoolean (timeSpent e) then timeSpent e else num 0),
      point_target = targetTime habit,
      point_status =
        (case find (\<lambda>e. habitId e = habit_id habit \<and>
                         date e = format_yyyy_MM_dd \<lparr>dayNo = today - int i, msOfDay = 0\<rparr>) es of
           None \<Rightarrow> StatusNone
         | Some e \<Rightarrow> status e)\<rparr>"
proof -
  from assms have "dayNo (subDays now i) = dayNo \<lparr>dayNo = today - int i, msOfDay = 0\<rparr>"
    by (simp add: subDays_def)
  then have "format_yyyy_MM_dd (subDays now i) =
        format_yyyy_MM_dd \<lparr>dayNo = today - int i, msOfDay = 0\<rparr>"
    and "format_MMM_dd (subDays now i) = format_MMM_dd \<lparr>dayNo = today - int i, msOfDay = 0\<rparr>"
    by (rule format_yyyy_MM_dd_dayNo, rule format_MMM_dd_dayNo)
  then show ?thesis
    by (simp add: chartPoint_def Let_def)
qed

text \<open>
  Claim C4, as amended. The trend has exactly 30 points. The point at the index \<open>k\<close>
  is the one of the day \<open>29 - k\<close> days before the date that the clock shows in its
  own iteration (the counter \<open>29 - k\<close>). When the 30 readings of the clock fall on one
  calendar day \<open>today\<close>, the points are those of the days \<open>today - 29\<close> (index 0) to
  \<open>today\<close> (index 29), one for each day. The minutes of a point are those of the
  first entry of the habit logged for its day, or 0 without one (and 0 for minutes
  that are \<open>NaN\<close>); its target is the target of the habit; its status is the status
  of that entry, or \<open>none\<close> without one.
\<close>

theorem last30Days_points:
  "length (last30Days clock habit es) = 30 \<and>
   (\<forall>k<30.
      dayNo (subDays (clock (29 - k)) (29 - k)) = dayNo (clock (29 - k)) - 29 + int k \<and>
      last30Days clock habit es ! k =
        \<lparr>point_date = format_MMM_dd (subDays (clock (29 - k)) (29 - k)),
         point_timeSpent =
           (case find (\<lambda>e. habitId e = habit_id habit \<and>
                            date e = format_yyyy_MM_dd (subDays (clock (29 - k)) (29 - k))) es of
              None \<Rightarrow> num 0
            | Some e \<Rightarrow> if ToBoolean (timeSpent e) then timeSpent e else num 0),
         point_target = targetTime habit,
         point_status =
           (case find (\<lambda>e. habitId e = habit_id habit \<and>
                            date e = format_yyyy_MM_dd (subDays (clock (29 - k)) (29 - k))) es of
              None \<Rightarrow> StatusNone
            | Some e \<Rightarrow> status e)\<rparr>) \<and>
   ((\<forall>i<30. dayNo (clock i) = today) \<longrightarrow>
    (\<forall>k<30.
      last30Days clock habit es ! k =
        \<lparr>point_date = format_MMM_dd \<lparr>dayNo = today - 29 + int k, msOfDay = 0\<rparr>,
         point_timeSpent =
           (case find (\<lambda>e. habitId e = habit_id habit \<and>
                            date e = format_yyyy_MM_dd \<lparr>dayNo = today - 29 + int k, msOfDay = 0\<rparr>)
                   es of
              None \<Rightarrow> num 0
            | Some e \<Rightarrow> if ToBoolean (timeSpent e) then timeSpent e else num 0),
         point_target = targetTime habit,
         point_status =
           (case find (\<lambda>e. habitId e = habit_id habit \<and>
                            date e = format_yyyy_MM_dd \<lparr>dayNo = today - 29 + int k, msOfDay = 0\<rparr>)
                   es of
              None \<Rightarrow> StatusNone
            | Some e \<Rightarrow> status e)\<rparr>))"
proof (intro conjI allI impI)
  show "length (last30Days clock habit es) = 30"
    by (simp add: last30Days_def length_last30DaysFrom)
next
  fix k :: nat
  assume "k < 30"
  then show "dayNo (subDays (clock (29 - k)) (29 - k)) = dayNo (clock (29 - k)) - 29 + int k"
    by (simp add: subDays_def)
next
  fix k :: nat
  assume "k < 30"
  then have "last30Days clock habit es ! k = chartPoint (clock (29 - k)) habit es (29 - k)"
    by (simp add: last30Days_def nth_last30DaysFrom)
  then show "last30Days clock habit es ! k =
        \<lparr>point_date = format_MMM_dd (subDays (clock (29 - k)) (29 - k)),
         point_timeSpent =
           (case find (\<lambda>e. habitId e = habit_id habit \<and>
                            date e = format_yyyy_MM_dd (subDays (clock (29 - k)) (29 - k))) es of
              None \<Rightarrow> num 0
            | Some e \<Rightarrow> if ToBoolean (timeSpent e) then timeSpent e else num 0),
         point_target = targetTime habit,
         point_status =
           (case find (\<lambda>e. habitId e = habit_id habit \<and>
                            date e = format_yyyy_MM_dd (subDays (clock (29 - k)) (29 - k))) es of
              None \<Rightarrow> StatusNone
            | Some e \<Rightarrow> status e)\<rparr>"
    by (simp add: chartPoint_def Let_def)
next
  fix k :: nat
  assume same_day: "\<forall>i<30. dayNo (clock i) = today" and k: "k < 30"
  from k have point: "last30Days clock habit es ! k = chartPoint (clock (29 - k)) habit es (29 - k)"
    by (simp add: last30Days_def nth_last30DaysFrom)
  from same_day have "dayNo (clock (29 - k)) = today"
    by simp
  from chartPoint_of_day [OF this, of habit es "29 - k"] k
  show "last30Days clock habit es ! k =
        \<lparr>point_date = format_MMM_dd \<lparr>dayNo = today - 29 + int k, msOfDay = 0\<rparr>,
         point_timeSpent =
           (case find (\<lambda>e. habitId e = habit_id habit \<and>
                            date e = format_yyyy_MM_dd \<lparr>dayNo = today - 29 + int k, msOfDay = 0\<rparr>)
                   es of
              None \<Rightarrow> num 0
            | Some e \<Rightarrow> if ToBoolean (timeSpent e) then timeSpent e else num 0),
         point_target = targetTime habit,
         point_status =
           (case find (\<lambda>e. habitId e = habit_id habit \<and>
                            date e = format_yyyy_MM_dd \<lparr>dayNo = today - 29 + int k, msOfDay = 0\<rparr>)
                   es of
              None \<Rightarrow> StatusNone
            | Some e \<Rightarrow> status e)\<rparr>"
    unfolding point by (simp add: of_nat_diff algebra_simps)
qed

subsection \<open>The completion rate\<close>

lemma filter_habit_done:
  "filter (\<lambda>e. status e = StatusDone) (filter (\<lambda>e. habitId e = habit_id habit) es) =
   filter (\<lambda>e. habitId e = habit_id habit \<and> status e = StatusDone) es"
  by (simp add: conj_commute)

text \<open>
  Claim C5, as amended. Let \<open>N\<close> count the entries with the id of the habit and \<open>D\<close>
  those of them whose status is \<open>done\<close>. The completion rate is 0 when \<open>N\<close> is 0.
  Otherwise (the entries being an array, of a length below \<open>2\<^sup>3\<^sup>2\<close>) it is an
  integer \<open>r\<close>, which is \<open>round(D / N * 100)\<close>, except that it may be one less when
  \<open>D / N * 100\<close> lies exactly half-way between two integers: then \<open>r + 1/2\<close> is
  \<open>D / N * 100\<close>.
\<close>

theorem completionRate_formula:
  assumes "N = int (length (filter (\<lambda>e. habitId e = habit_id habit) es))"
    and "D = int (length (filter (\<lambda>e. habitId e = habit_id habit \<and> status e = StatusDone) es))"
  shows "(N = 0 \<longrightarrow> completionRate habit es = num 0) \<and>
         (0 < N \<and> length es < 2 ^ 32 \<longrightarrow>
            (\<exists>r. completionRate habit es = num r \<and>
                 (r = spec_round (of_int D / of_int N * 100) \<or>
                  (of_int r :: rat) + 1 / 2 = of_int D / of_int N * 100)))"
proof (intro conjI impI)
  assume "N = 0"
  with assms(1) show "completionRate habit es = num 0"
    by (simp add: completionRate_def)
next
  assume "0 < N \<and> length es < 2 ^ 32"
  then have N: "0 < N" and len: "length es < 2 ^ 32"
    by simp_all
  have "length (filter (\<lambda>e. habitId e = habit_id habit \<and> status e = StatusDone) es) < 2 ^ 32"
    and "length (filter (\<lambda>e. habitId e = habit_id habit) es) < 2 ^ 32"
    by (rule le_less_trans [OF length_filter_le len])+
  then have "int (length (filter (\<lambda>e. habitId e = habit_id habit \<and> status e = StatusDone) es))
        < int (2 ^ 32)"
    and "int (length (filter (\<lambda>e. habitId e = habit_id habit) es)) < int (2 ^ 32)"
    by (simp_all only: of_nat_less_iff)
  with assms have "D < 2 ^ 32" and "N < 2 ^ 32" and "0 \<le> D"
    by simp_all
  then have D43: "\<bar>D\<bar> \<le> 2 ^ 43" and N53: "\<bar>N\<bar> \<le> 2 ^ 53"
    using N by simp_all
  from N have "N \<noteq> 0"
    by simp
  from N assms have "completionRate habit es =
      Math_round (js_mul (js_div (num D) (num N)) (num 100))"
    by (simp add: completionRate_def Let_def filter_habit_done)
  with percent_round [OF \<open>N \<noteq> 0\<close> D43 N53]
  show "\<exists>r. completionRate habit es = num r \<and>
         (r = spec_round (of_int D / of_int N * 100) \<or>
          (of_int r :: rat) + 1 / 2 = of_int D / of_int N * 100)"
    by simp
qed

subsection \<open>The monthly grid\<close>

lemma days_midnight: "day \<in> set (days vd) \<Longrightarrow> msOfDay day = 0"
  by (auto simp: days_def eachDayOfInterval_def)

lemma isBefore_startOfToday:
  "msOfDay day = 0 \<Longrightarrow> isBefore day (startOfToday now) \<longleftrightarrow> dayNo day < dayNo now"
  by (simp add: isBefore_def startOfToday_def getTime_def)

lemma nth_grid:
  "i < length (days (viewDate st)) \<Longrightarrow> j < length (habits st) \<Longrightarrow>
   grid clock st ! i ! j = renderCell (clock i j) st (days (viewDate st) ! i) (habits st ! j)"
  by (simp add: grid_def)

lemma length_grid:
  "length (grid clock st) = length (days (viewDate st)) \<and>
   (\<forall>i < length (days (viewDate st)). length (grid clock st ! i) = length (habits st))"
  by (simp add: grid_def)

lemma renderCell_cases:
  assumes "msOfDay day = 0"
  shows "case getEntry st (habit_id habit) (format_yyyy_MM_dd day) of
        Some e \<Rightarrow>
          cellText (renderCell now st day habit) =
            Some \<lparr>textColour = (if status e = StatusDone then TextEmerald else TextRose),
                  shownTime = timeSpent e,
                  shownTarget = targetTime habit,
                  shownPercent =
                    Math_round (js_mul (js_div (timeSpent e) (targetTime habit)) (num 100))\<rparr>
      | None \<Rightarrow>
          if dayNo day < dayNo now
          then background (renderCell now st day habit) = BgRose \<and>
               cellText (renderCell now st day habit) =
                 Some \<lparr>textColour = TextRose, shownTime = num 0, shownTarget = targetTime habit,
                       shownPercent = num 0\<rparr>
          else background (renderCell now st day habit) = BgTransparent \<and>
               cellText (renderCell now st day habit) = None"
  using assms
  by (simp add: renderCell_def Let_def isBefore_startOfToday split: option.split)

text \<open>
  Claim C3, as amended. In the grid of a month, the cell of a day and a habit shows,
  when \<open>getEntry\<close> finds an entry of the habit for that day, the minutes of the entry,
  the target and the percentage \<open>Math.round((timeSpent / targetTime) * 100)\<close>, computed
  on doubles. For \<open>t\<close> minutes and a target of \<open>g\<close> minutes, both integers and \<open>g\<close>
  not zero, the percentage is an integer \<open>r\<close>, which is
  \<open>round(t / g * 100)\<close>, except that it may be one less when \<open>t / g * 100\<close> lies
  exactly half-way between two integers: then \<open>r + 1/2\<close> is \<open>t / g * 100\<close>. Without
  an entry, a day strictly before the day that the clock shows in that cell has the
  background and the text of a failure, with 0 minutes and 0 percent; that day and
  later days have a transparent cell with no text.
\<close>

theorem grid_cell_cases:
  "\<forall>i < length (days (viewDate st)). \<forall>j < length (habits st).
     (case getEntry st (habit_id (habits st ! j)) (format_yyyy_MM_dd (days (viewDate st) ! i)) of
        Some e \<Rightarrow>
          (\<exists>p. cellText (grid clock st ! i ! j) =
                  Some \<lparr>textColour = (if status e = StatusDone then TextEmerald else TextRose),
                        shownTime = timeSpent e,
                        shownTarget = targetTime (habits st ! j),
                        shownPercent = p\<rparr> \<and>
                p = Math_round
                      (js_mul (js_div (timeSpent e) (targetTime (habits st ! j))) (num 100)) \<and>
                (\<forall>t g. timeSpent e = num t \<and> targetTime (habits st ! j) = num g \<and>
                        g \<noteq> 0 \<and> \<bar>t\<bar> \<le> 2 ^ 43 \<and> \<bar>g\<bar> \<le> 2 ^ 53 \<longrightarrow>
                   (\<exists>r. p = num r \<and>
                        (r = spec_round (of_int t / of_int g * 100) \<or>
                         (of_int r :: rat) + 1 / 2 = of_int t / of_int g * 100))))
      | None \<Rightarrow>
          if dayNo (days (viewDate st) ! i) < dayNo (clock i j)
          then background (grid clock st ! i ! j) = BgRose \<and>
               cellText (grid clock st ! i ! j) =
                 Some \<lparr>textColour = TextRose, shownTime = num 0,
                       shownTarget = targetTime (habits st ! j), shownPercent = num 0\<rparr>
          else background (grid clock st ! i ! j) = BgTransparent \<and>
               cellText (grid clock st ! i ! j) = None)"
proof (intro allI impI)
  fix i j
  assume i: "i < length (days (viewDate st))" and j: "j < length (habits st)"
  let ?day = "days (viewDate st) ! i" and ?habit = "habits st ! j"
  from i have "?day \<in> set (days (viewDate st))"
    by (rule nth_mem)
  then have "msOfDay ?day = 0"
    by (rule days_midnight)
  note cell = renderCell_cases [OF this, where st = st and habit = ?habit and now = "clock i j"]
  show "case getEntry st (habit_id ?habit) (format_yyyy_MM_dd ?day) of
        Some e \<Rightarrow>
          (\<exists>p. cellText (grid clock st ! i ! j) =
                  Some \<lparr>textColour = (if status e = StatusDone then TextEmerald else TextRose),
                        shownTime = timeSpent e,
                        shownTarget = targetTime ?habit,
                        shownPercent = p\<rparr> \<and>
                p = Math_round (js_mul (js_div (timeSpent e) (targetTime ?habit)) (num 100)) \<and>
                (\<forall>t g. timeSpent e = num t \<and> targetTime ?habit = num g \<and>
                        g \<noteq> 0 \<and> \<bar>t\<bar> \<le> 2 ^ 43 \<and> \<bar>g\<bar> \<le> 2 ^ 53 \<longrightarrow>
                   (\<exists>r. p = num r \<and>
                        (r = spec_round (of_int t / of_int g * 100) \<or>
                         (of_int r :: rat) + 1 / 2 = of_int t / of_int g * 100))))
      | None \<Rightarrow>
          if dayNo ?day < dayNo (clock i j)
          then background (grid clock st ! i ! j) = BgRose \<and>
               cellText (grid clock st ! i ! j) =
                 Some \<lparr>textColour = TextRose, shownTime = num 0,
                       shownTarget = targetTime ?habit, shownPercent = num 0\<rparr>
          else background (grid clock st ! i ! j) = BgTransparent \<and>
               cellText (grid clock st ! i ! j) = None"
  proof (cases "getEntry st (habit_id ?habit) (format_yyyy_MM_dd ?day)")
    case None
    with cell show ?thesis
      by (simp only: nth_grid [OF i j] option.case)
  next
    case (Some e)
    with cell have shown: "cellText (grid clock st ! i ! j) =
            Some \<lparr>textColour = (if status e = StatusDone then TextEmerald else TextRose),
                  shownTime = timeSpent e,
                  shownTarget = targetTime ?habit,
                  shownPercent =
                    Math_round (js_mul (js_div (timeSpent e) (targetTime ?habit)) (num 100))\<rparr>"
      by (simp only: nth_grid [OF i j] option.case)
    have percent:
      "\<exists>r. Math_round (js_mul (js_div (timeSpent e) (targetTime ?habit)) (num 100)) = num r \<and>
            (r = spec_round (of_int t / of_int g * 100) \<or>
             (of_int r :: rat) + 1 / 2 = of_int t / of_int g * 100)"
      if h: "timeSpent e = num t \<and> targetTime ?habit = num g \<and>
          g \<noteq> 0 \<and> \<bar>t\<bar> \<le> 2 ^ 43 \<and> \<bar>g\<bar> \<le> 2 ^ 53" for t g
    proof -
      from h have eqs: "timeSpent e = num t" "targetTime ?habit = num g"
        and g: "g \<noteq> 0" and t: "\<bar>t\<bar> \<le> 2 ^ 43" and g53: "\<bar>g\<bar> \<le> 2 ^ 53"
        by (rule conjunct1, rule conjunct2 [THEN conjunct1],
            rule conjunct2 [THEN conjunct2, THEN conjunct1],
            rule conjunct2 [THEN conjunct2, THEN conjunct2, THEN conjunct1],
            rule conjunct2 [THEN conjunct2, THEN conjunct2, THEN conjunct2])
      from percent_round [OF g t g53] show ?thesis
        unfolding eqs .
    qed
    show ?thesis
      unfolding Some option.case
      by (rule exI [where x = "Math_round (js_mul (js_div (timeSpent e) (targetTime ?habit)) (num 100))"])
         (intro conjI allI impI shown refl, rule percent)
  qed
qed

subsection \<open>The clock\<close>

lemma last30Days_dayNo:
  assumes "\<forall>i<30. dayNo (clock1 i) = dayNo (clock2 i)"
  shows "last30Days clock1 habit es = last30Days clock2 habit es"
proof -
  have "n < 30 \<Longrightarrow> last30DaysFrom clock1 habit es n = last30DaysFrom clock2 habit es n" for n
  proof (induction n)
    case 0
    from assms have "dayNo (clock1 0) = dayNo (clock2 0)"
      by simp
    then have "chartPoint (clock1 0) habit es 0 = chartPoint (clock2 0) habit es 0"
      by (rule chartPoint_dayNo)
    then show ?case
      by simp
  next
    case (Suc n)
    from assms Suc.prems have "dayNo (clock1 (Suc n)) = dayNo (clock2 (Suc n))"
      by blast
    then have "chartPoint (clock1 (Suc n)) habit es (Suc n) =
        chartPoint (clock2 (Suc n)) habit es (Suc n)"
      by (rule chartPoint_dayNo)
    with Suc show ?case
      by simp
  qed
  then show ?thesis
    by (simp add: last30Days_def)
qed

lemma renderCell_dayNo:
  "dayNo now1 = dayNo now2 \<Longrightarrow> renderCell now1 st day habit = renderCell now2 st day habit"
  by (simp add: renderCell_def isBefore_def startOfToday_def getTime_def)

lemma grid_dayNo:
  assumes "\<forall>i < length (days (viewDate st)). \<forall>j < length (habits st).
             dayNo (cells1 i j) = dayNo (cells2 i j)"
  shows "grid cells1 st = grid cells2 st"
proof -
  have "renderCell (cells1 i j) st day habit = renderCell (cells2 i j) st day habit"
    if "i < length (days (viewDate st))" and "j < length (habits st)" for i j day habit
  proof -
    from that assms have "dayNo (cells1 i j) = dayNo (cells2 i j)"
      by blast
    then show ?thesis
      by (rule renderCell_dayNo)
  qed
  then show ?thesis
    by (simp add: grid_def)
qed

text \<open>
  Claim C9, as amended. The completion rate and the journal are functions of the habit
  and the entries alone. The trend and the grid also read the system clock, the trend
  once in each iteration of its loop and the grid once in each cell, and depend on it
  through the calendar days of the readings only: with the same habits, entries, habit
  and month, readings of the clock on the same days give the same views. So do, in
  particular, two readings on the same day, each standing for all the readings of a
  run.
\<close>

theorem projections_read_the_clock_day:
  "view_completionRate (HabitStats parseISO clock1 habit es) =
     view_completionRate (HabitStats parseISO clock2 habit es) \<and>
   view_journalEntries (HabitStats parseISO clock1 habit es) =
     view_journalEntries (HabitStats parseISO clock2 habit es) \<and>
   ((\<forall>i<30. dayNo (clock1 i) = dayNo (clock2 i)) \<longrightarrow>
      HabitStats parseISO clock1 habit es = HabitStats parseISO clock2 habit es) \<and>
   ((\<forall>i < length (days (viewDate st)). \<forall>j < length (habits st).
        dayNo (cells1 i j) = dayNo (cells2 i j)) \<longrightarrow>
      grid cells1 st = grid cells2 st) \<and>
   (dayNo now1 = dayNo now2 \<longrightarrow>
      HabitStats parseISO (\<lambda>i. now1) habit es = HabitStats parseISO (\<lambda>i. now2) habit es \<and>
      grid (\<lambda>i j. now1) st = grid (\<lambda>i j. now2) st)"
proof (intro conjI impI)
  show "view_completionRate (HabitStats parseISO clock1 habit es) =
      view_completionRate (HabitStats parseISO clock2 habit es)"
    by (simp add: HabitStats_def)
  show "view_journalEntries (HabitStats parseISO clock1 habit es) =
      view_journalEntries (HabitStats parseISO clock2 habit es)"
    by (simp add: HabitStats_def)
next
  assume "\<forall>i<30. dayNo (clock1 i) = dayNo (clock2 i)"
  from last30Days_dayNo [OF this]
  show "HabitStats parseISO clock1 habit es = HabitStats parseISO clock2 habit es"
    by (simp add: HabitStats_def)
next
  assume "\<forall>i < length (days (viewDate st)). \<forall>j < length (habits st).
        dayNo (cells1 i j) = dayNo (cells2 i j)"
  then show "grid cells1 st = grid cells2 st"
    by (rule grid_dayNo)
next
  assume same_day: "dayNo now1 = dayNo now2"
  then have "\<forall>i<30. dayNo ((\<lambda>i. now1) i) = dayNo ((\<lambda>i. now2) i)"
    by simp
  from last30Days_dayNo [OF this]
  show "HabitStats parseISO (\<lambda>i. now1) habit es = HabitStats parseISO (\<lambda>i. now2) habit es"
    by (simp add: HabitStats_def)
  from same_day have "\<forall>i < length (days (viewDate st)). \<forall>j < length (habits st).
      dayNo ((\<lambda>i j. now1) i j) = dayNo ((\<lambda>i j. now2) i j)"
    by simp
  then show "grid (\<lambda>i j. now1) st = grid (\<lambda>i j. now2) st"
    by (rule grid_dayNo)
qed
subsection \<open>The journal\<close>

text \<open>
  When \<open>parseISO\<close> reads the dates of all the entries kept, the journal is their
  stable sorting by time, latest first: it is in that order, and the entries of any
  one time are those of the log, in the order of the log.
\<close>

lemma entryAfter_valid:
  "parseISO (date a) = Some x \<Longrightarrow> parseISO (date b) = Some y \<Longrightarrow>
   entryAfter parseISO a b \<longleftrightarrow> getTime x < getTime y"
  by (simp add: entryAfter_def compareDesc_def)

lemma set_insertEntry: "set (insertEntry parseISO a bs) = insert a (set bs)"
  by (induction bs) auto

lemma sorted_insertEntry:
  assumes "parseISO (date a) \<noteq> None" and "\<forall>b \<in> set bs. parseISO (date b) \<noteq> None"
    and "sorted_wrt (\<lambda>a b. getTime (the (parseISO (date b))) \<le> getTime (the (parseISO (date a)))) bs"
  shows "sorted_wrt (\<lambda>a b. getTime (the (parseISO (date b))) \<le> getTime (the (parseISO (date a))))
           (insertEntry parseISO a bs)"
  using assms
proof (induction bs)
  case Nil
  then show ?case by simp
next
  case (Cons b bs)
  from Cons.prems obtain x y where x: "parseISO (date a) = Some x" and y: "parseISO (date b) = Some y"
    by auto
  show ?case
  proof (cases "entryAfter parseISO a b")
    case True
    with entryAfter_valid [OF x y] have "getTime x < getTime y"
      by simp
    with Cons True x y show ?thesis
      by (auto simp: set_insertEntry)
  next
    case False
    with entryAfter_valid [OF x y] have "getTime y \<le> getTime x"
      by simp
    with Cons.prems False x y show ?thesis
      by fastforce
  qed
qed

lemma filter_insertEntry:
  assumes "parseISO (date a) \<noteq> None" and "\<forall>b \<in> set bs. parseISO (date b) \<noteq> None"
  shows "filter (\<lambda>e. getTime (the (parseISO (date e))) = t) (insertEntry parseISO a bs) =
         filter (\<lambda>e. getTime (the (parseISO (date e))) = t) (a # bs)"
  using assms
proof (induction bs)
  case Nil
  then show ?case by simp
next
  case (Cons b bs)
  from Cons.prems obtain x y where x: "parseISO (date a) = Some x" and y: "parseISO (date b) = Some y"
    by auto
  show ?case
  proof (cases "entryAfter parseISO a b")
    case True
    with entryAfter_valid [OF x y] have "getTime x < getTime y"
      by simp
    with Cons True x y show ?thesis
      by auto
  next
    case False
    then show ?thesis
      by simp
  qed
qed

lemma insertion_sort_stable:
  assumes "\<forall>b \<in> set bs. parseISO (date b) \<noteq> None"
  shows "set (foldr (insertEntry parseISO) bs []) = set bs \<and>
         sorted_wrt (\<lambda>a b. getTime (the (parseISO (date b))) \<le> getTime (the (parseISO (date a))))
           (foldr (insertEntry parseISO) bs []) \<and>
         filter (\<lambda>e. getTime (the (parseISO (date e))) = t) (foldr (insertEntry parseISO) bs []) =
         filter (\<lambda>e. getTime (the (parseISO (date e))) = t) bs"
  using assms
proof (induction bs)
  case Nil
  then show ?case by simp
next
  case (Cons b bs)
  let ?sorted = "foldr (insertEntry parseISO) bs []"
  from Cons have IH: "set ?sorted = set bs"
    "sorted_wrt (\<lambda>a b. getTime (the (parseISO (date b))) \<le> getTime (the (parseISO (date a)))) ?sorted"
    "filter (\<lambda>e. getTime (the (parseISO (date e))) = t) ?sorted =
     filter (\<lambda>e. getTime (the (parseISO (date e))) = t) bs"
    by simp_all
  from Cons.prems have b: "parseISO (date b) \<noteq> None"
    and bs: "\<forall>b \<in> set ?sorted. parseISO (date b) \<noteq> None"
    by (simp_all add: IH(1))
  from sorted_insertEntry [OF b bs IH(2)] filter_insertEntry [OF b bs, of t] IH(1, 3)
  show ?case
    by (simp add: set_insertEntry)
qed

lemma journalEntries_sorted:
  assumes "journalEntries parseISO habit es = Some js"
  shows "sorted_wrt (\<lambda>a b. getTime (the (parseISO (date b))) \<le> getTime (the (parseISO (date a)))) js \<and>
         filter (\<lambda>e. getTime (the (parseISO (date e))) = t) js =
         filter (\<lambda>e. getTime (the (parseISO (date e))) = t)
           (filter (\<lambda>e. habitId e = habit_id habit \<and>
                         (case notes e of None \<Rightarrow> False | Some n \<Rightarrow> n \<noteq> [] \<and> trim n \<noteq> []))
              es)"
proof -
  let ?kept = "filter (\<lambda>e. habitId e = habit_id habit \<and>
                          (case notes e of None \<Rightarrow> False | Some n \<Rightarrow> n \<noteq> [] \<and> trim n \<noteq> []))
                 es"
  from assms have valid: "\<forall>b \<in> set ?kept. parseISO (date b) \<noteq> None"
    and js: "js = foldr (insertEntry parseISO) ?kept []"
    by (simp_all add: journalEntries_def Let_def list_all_iff split: if_splits)
  from insertion_sort_stable [OF valid, of t] show ?thesis
    unfolding js by blast
qed
subsection \<open>The views on the example\<close>

text \<open>The equations that evaluate the dates on numerals.\<close>

lemmas date_eval =
  civilFromDays_def daysFromCivil_def getFullYear_def getMonth_def getDate_def
  format_yyyy_MM_dd_def format_MMM_dd_def addLeadingZeros_def monthAbbreviation_def
  startOfMonth_def lastDayOfMonth_def subDays_def showNat.simps Let_def

text \<open>
  Two percentages. The last step of each is \<open>Math.round\<close> of a double: 45 minutes
  of 30 are 150 percent; 23 minutes of 40 are 57 percent, the double \<open>(23 / 40) * 100\<close>
  being just below 57.5, where \<open>round(23 / 40 * 100)\<close> is 58.
\<close>

lemma percent_45_of_30: "Math_round (js_mul (js_div (num 45) (num 30)) (num 100)) = num 150"
  by (simp add: number_eval cong: let_weak_cong)

lemma percent_23_of_40: "Math_round (js_mul (js_div (num 23) (num 40)) (num 100)) = num 57"
  by (simp add: number_eval cong: let_weak_cong)

lemma spec_round_23_of_40: "spec_round (of_int 23 / of_int 40 * 100) = 58"
  by (simp add: spec_round_def floor_eq_iff)

lemma num_57_58: "num 57 \<noteq> num 58"
  by (simp add: num_def normalise.simps)

lemma num_truthy: "ToBoolean (num 45) \<and> ToBoolean (num 10)"
  by (simp add: ToBoolean_def num_def normalise.simps)

text \<open>A rational that is an integer and a half is no integer.\<close>

lemma no_half_integer: "(of_int r :: rat) + 1 / 2 \<noteq> of_int k"
proof
  assume "(of_int r :: rat) + 1 / 2 = of_int k"
  then have "(of_int (2 * r + 1) :: rat) = of_int (2 * k)"
    by simp
  then have "2 * r + 1 = 2 * k"
    by (simp only: of_int_eq_iff)
  then show False
    by presburger
qed

lemma length_days:
  "length (days vd) = nat (dayNo (lastDayOfMonth vd) - dayNo (startOfMonth vd) + 1)"
  by (simp add: days_def eachDayOfInterval_def)

lemma nth_days:
  "i < length (days vd) \<Longrightarrow> days vd ! i = \<lparr>dayNo = dayNo (startOfMonth vd) + int i, msOfDay = 0\<rparr>"
  by (simp add: days_def eachDayOfInterval_def)

lemma january_2024:
  "dayNo (startOfMonth \<lparr>dayNo = 19723, msOfDay = 0\<rparr>) = 19723 \<and>
   dayNo (lastDayOfMonth \<lparr>dayNo = 19723, msOfDay = 0\<rparr>) = 19753"
  by (simp add: date_eval cong: let_weak_cong)

lemma format_examples:
  "format_yyyy_MM_dd \<lparr>dayNo = 19727, msOfDay = ms\<rparr> = ''2024-01-05'' \<and>
   format_yyyy_MM_dd \<lparr>dayNo = 19724, msOfDay = ms\<rparr> = ''2024-01-02'' \<and>
   format_yyyy_MM_dd \<lparr>dayNo = 19732, msOfDay = ms\<rparr> = ''2024-01-10'' \<and>
   format_yyyy_MM_dd \<lparr>dayNo = 19698, msOfDay = ms\<rparr> = ''2023-12-07'' \<and>
   format_yyyy_MM_dd \<lparr>dayNo = 19728, msOfDay = ms\<rparr> = ''2024-01-06'' \<and>
   format_MMM_dd \<lparr>dayNo = 19727, msOfDay = ms\<rparr> = ''Jan 05'' \<and>
   format_MMM_dd \<lparr>dayNo = 19728, msOfDay = ms\<rparr> = ''Jan 06'' \<and>
   format_MMM_dd \<lparr>dayNo = 19698, msOfDay = ms\<rparr> = ''Dec 07'' \<and>
   format_MMM_dd \<lparr>dayNo = 19699, msOfDay = ms\<rparr> = ''Dec 08'' \<and>
   format_MMM_dd \<lparr>dayNo = 19700, msOfDay = ms\<rparr> = ''Dec 09''"
  by (simp add: date_eval cong: let_weak_cong)

text \<open>
  A trend computed across a midnight. The first iteration reads the clock on
  2024-01-05 and pushes the point of 2023-12-07, 29 days before; the next one reads it
  on 2024-01-06 and pushes the point of 2023-12-09, 28 days before. The 30 points end
  on 2024-01-06, and none of them is the point of 2023-12-08: they are not the days
  from 29 days ago to the current date, whichever of the two dates that is.
\<close>

theorem last30Days_midnight_counterexample:
  "format_yyyy_MM_dd (midnightClock 29) = ''2024-01-05'' \<and>
   format_yyyy_MM_dd (midnightClock 28) = ''2024-01-06'' \<and>
   length (last30Days midnightClock exampleHabit exampleEntries) = 30 \<and>
   point_date (last30Days midnightClock exampleHabit exampleEntries ! 0) = ''Dec 07'' \<and>
   point_date (last30Days midnightClock exampleHabit exampleEntries ! 1) = ''Dec 09'' \<and>
   point_date (last30Days midnightClock exampleHabit exampleEntries ! 29) = ''Jan 06''"
proof -
  have "point_date (last30Days midnightClock exampleHabit exampleEntries ! 0) = ''Dec 07''"
    by (simp add: last30Days_def nth_last30DaysFrom chartPoint_def subDays_def midnightClock_def
        format_examples Let_def)
  moreover have "point_date (last30Days midnightClock exampleHabit exampleEntries ! 1) = ''Dec 09''"
    by (simp add: last30Days_def nth_last30DaysFrom chartPoint_def subDays_def midnightClock_def
        format_examples Let_def)
  moreover have "point_date (last30Days midnightClock exampleHabit exampleEntries ! 29) = ''Jan 06''"
    by (simp add: last30Days_def nth_last30DaysFrom chartPoint_def subDays_def midnightClock_def
        format_examples Let_def)
  moreover have "length (last30Days midnightClock exampleHabit exampleEntries) = 30"
    by (simp add: last30Days_def length_last30DaysFrom)
  ultimately show ?thesis
    by (simp add: midnightClock_def format_examples)
qed

text \<open>
  The trend of the example, every reading of the clock being 2024-01-05 at 10: 30
  points, the last one the entry of the day, the first one the unlogged 2023-12-07.
\<close>

theorem last30Days_points_witness:
  "dayNo exampleNow = 19727 \<and>
   length (last30Days (\<lambda>i. exampleNow) exampleHabit exampleEntries) = 30 \<and>
   last30Days (\<lambda>i. exampleNow) exampleHabit exampleEntries ! 29 =
     \<lparr>point_date = ''Jan 05'', point_timeSpent = num 45, point_target = num 30,
      point_status = StatusDone\<rparr> \<and>
   last30Days (\<lambda>i. exampleNow) exampleHabit exampleEntries ! 0 =
     \<lparr>point_date = ''Dec 07'', point_timeSpent = num 0, point_target = num 30,
      point_status = StatusNone\<rparr>"
proof -
  note points = last30Days_points [of "\<lambda>i. exampleNow" exampleHabit exampleEntries 19727]
  have today: "dayNo exampleNow = 19727"
    by (simp add: exampleNow_def)
  then have same_day: "\<forall>i<30. dayNo ((\<lambda>i::nat. exampleNow) i) = 19727"
    by simp
  from points [THEN conjunct2, THEN conjunct2, THEN mp, OF same_day]
  have point: "last30Days (\<lambda>i. exampleNow) exampleHabit exampleEntries ! k =
        \<lparr>point_date = format_MMM_dd \<lparr>dayNo = 19727 - 29 + int k, msOfDay = 0\<rparr>,
         point_timeSpent =
           (case find (\<lambda>e. habitId e = habit_id exampleHabit \<and>
                            date e = format_yyyy_MM_dd \<lparr>dayNo = 19727 - 29 + int k, msOfDay = 0\<rparr>)
                   exampleEntries of
              None \<Rightarrow> num 0
            | Some e \<Rightarrow> if ToBoolean (timeSpent e) then timeSpent e else num 0),
         point_target = targetTime exampleHabit,
         point_status =
           (case find (\<lambda>e. habitId e = habit_id exampleHabit \<and>
                            date e = format_yyyy_MM_dd \<lparr>dayNo = 19727 - 29 + int k, msOfDay = 0\<rparr>)
                   exampleEntries of
              None \<Rightarrow> StatusNone
            | Some e \<Rightarrow> status e)\<rparr>"
    if "k < 30" for k
    using that by blast
  from points have "length (last30Days (\<lambda>i. exampleNow) exampleHabit exampleEntries) = 30"
    by (rule conjunct1)
  moreover from point [of 29]
  have "last30Days (\<lambda>i. exampleNow) exampleHabit exampleEntries ! 29 =
     \<lparr>point_date = ''Jan 05'', point_timeSpent = num 45, point_target = num 30,
      point_status = StatusDone\<rparr>"
    by (simp add: format_examples exampleHabit_def exampleEntries_def num_truthy)
  moreover from point [of 0]
  have "last30Days (\<lambda>i. exampleNow) exampleHabit exampleEntries ! 0 =
     \<lparr>point_date = ''Dec 07'', point_timeSpent = num 0, point_target = num 30,
      point_status = StatusNone\<rparr>"
    by (simp add: format_examples exampleHabit_def exampleEntries_def)
  ultimately show ?thesis
    using today by simp
qed

text \<open>
  A log of 40 days with 23 of them done: the completion rate computed is 57, and
  \<open>round(23 / 40 * 100)\<close> is 58.
\<close>

lemma length_filter_less_upt: "length (filter (\<lambda>i. i < k) [0..<n]) = min k n"
  by (induction n) auto

lemma tieEntries_counts:
  "filter (\<lambda>e. habitId e = habit_id tieHabit) tieEntries = tieEntries \<and>
   length tieEntries = 40 \<and>
   length (filter (\<lambda>e. status e = StatusDone) tieEntries) = 23"
proof -
  have "filter (\<lambda>e. status e = StatusDone) tieEntries =
      map (\<lambda>i. \<lparr>habitId = ''h2'', date = format_yyyy_MM_dd \<lparr>dayNo = 19723 + int i, msOfDay = 0\<rparr>,
                status = (if i < 23 then StatusDone else StatusFailed), timeSpent = num 40,
                notes = None\<rparr>)
        (filter (\<lambda>i. i < 23) [0..<40])"
    unfolding tieEntries_def filter_map by (simp add: comp_def)
  then have "length (filter (\<lambda>e. status e = StatusDone) tieEntries) = 23"
    by (simp only: length_map length_filter_less_upt)
  moreover have "filter (\<lambda>e. habitId e = habit_id tieHabit) tieEntries = tieEntries"
    unfolding tieEntries_def filter_map by (simp add: comp_def tieHabit_def)
  moreover have "length tieEntries = 40"
    by (simp add: tieEntries_def)
  ultimately show ?thesis
    by simp
qed

theorem completionRate_tie_counterexample:
  "length (filter (\<lambda>e. habitId e = habit_id tieHabit) tieEntries) = 40 \<and>
   length (filter (\<lambda>e. habitId e = habit_id tieHabit \<and> status e = StatusDone) tieEntries) = 23 \<and>
   completionRate tieHabit tieEntries = num 57 \<and>
   spec_round (of_int 23 / of_int 40 * 100) = 58 \<and>
   num 57 \<noteq> num 58"
proof -
  note counts = tieEntries_counts
  from counts have n: "length (filter (\<lambda>e. habitId e = habit_id tieHabit) tieEntries) = 40"
    by simp
  have "filter (\<lambda>e. habitId e = habit_id tieHabit \<and> status e = StatusDone) tieEntries =
      filter (\<lambda>e. status e = StatusDone) (filter (\<lambda>e. habitId e = habit_id tieHabit) tieEntries)"
    by (simp only: filter_habit_done)
  with counts
  have d: "length (filter (\<lambda>e. habitId e = habit_id tieHabit \<and> status e = StatusDone) tieEntries) = 23"
    by simp
  from counts have "tieEntries \<noteq> []"
    by auto
  with counts have "completionRate tieHabit tieEntries =
      Math_round (js_mul (js_div (num 23) (num 40)) (num 100))"
    by (simp add: completionRate_def)
  then have "completionRate tieHabit tieEntries = num 57"
    by (simp only: percent_23_of_40)
  with n d spec_round_23_of_40 num_57_58 show ?thesis
    by simp
qed

text \<open>No entry gives the rate 0; one entry done out of two gives 50.\<close>

theorem completionRate_formula_witness:
  "completionRate exampleHabit [] = num 0 \<and> completionRate exampleHabit exampleEntries = num 50"
proof -
  have n: "2 = int (length (filter (\<lambda>e. habitId e = habit_id exampleHabit) exampleEntries))"
    and d: "1 = int (length (filter (\<lambda>e. habitId e = habit_id exampleHabit \<and> status e = StatusDone)
        exampleEntries))"
    by (simp_all add: exampleHabit_def exampleEntries_def)
  have len: "length exampleEntries < 2 ^ 32"
    by (simp add: exampleEntries_def)
  have "0 = int (length (filter (\<lambda>e. habitId e = habit_id exampleHabit) []))"
    and "0 = int (length (filter (\<lambda>e. habitId e = habit_id exampleHabit \<and> status e = StatusDone) []))"
    by simp_all
  from completionRate_formula [OF this]
  have a: "completionRate exampleHabit [] = num 0"
    by simp
  from completionRate_formula [OF n d] len
  obtain r where r: "completionRate exampleHabit exampleEntries = num r"
    and "r = spec_round (of_int 1 / of_int 2 * 100) \<or>
         (of_int r :: rat) + 1 / 2 = of_int 1 / of_int 2 * 100"
    by auto
  moreover have "(of_int 1 / of_int 2 * 100 :: rat) = of_int 50"
    by simp
  moreover have "spec_round (of_int 50) = 50"
    by (simp add: spec_round_def floor_eq_iff)
  ultimately have "r = 50"
    using no_half_integer [of r 50] by (simp only:) blast
  with a r show ?thesis
    by simp
qed

text \<open>
  An entry of 23 minutes for a habit with the target of 40: the cell shows 57 percent,
  and \<open>round(23 / 40 * 100)\<close> is 58.
\<close>

theorem grid_percent_tie_counterexample:
  "cellText (grid (\<lambda>i j. exampleNow) tieState ! 4 ! 0) =
     Some \<lparr>textColour = TextRose, shownTime = num 23, shownTarget = num 40,
           shownPercent = num 57\<rparr> \<and>
   spec_round (of_int 23 / of_int 40 * 100) = 58 \<and>
   num 57 \<noteq> num 58"
proof -
  have vd: "viewDate tieState = \<lparr>dayNo = 19723, msOfDay = 0\<rparr>"
    and hs: "habits tieState = [tieHabit]"
    by (simp_all add: tieState_def)
  have len: "4 < length (days (viewDate tieState))"
    unfolding vd length_days by (simp add: january_2024)
  then have d4: "days (viewDate tieState) ! 4 = \<lparr>dayNo = 19727, msOfDay = 0\<rparr>"
    unfolding vd by (simp add: nth_days january_2024)
  have j: "0 < length (habits tieState)"
    by (simp add: hs)
  have e: "getEntry tieState ''h2'' ''2024-01-05'' =
      Some \<lparr>habitId = ''h2'', date = ''2024-01-05'', status = StatusFailed, timeSpent = num 23,
            notes = None\<rparr>"
    by (simp add: getEntry_def tieState_def)
  have "msOfDay \<lparr>dayNo = 19727, msOfDay = 0\<rparr> = 0"
    by simp
  from renderCell_cases [OF this, where st = tieState and habit = tieHabit and now = exampleNow]
  have "cellText (renderCell exampleNow tieState \<lparr>dayNo = 19727, msOfDay = 0\<rparr> tieHabit) =
     Some \<lparr>textColour = TextRose, shownTime = num 23, shownTarget = num 40,
           shownPercent = Math_round (js_mul (js_div (num 23) (num 40)) (num 100))\<rparr>"
    by (simp add: format_examples tieHabit_def e)
  then have "cellText (grid (\<lambda>i j. exampleNow) tieState ! 4 ! 0) =
     Some \<lparr>textColour = TextRose, shownTime = num 23, shownTarget = num 40,
           shownPercent = num 57\<rparr>"
    unfolding nth_grid [OF len j] d4 hs by (simp only: percent_23_of_40 nth_Cons_0)
  with spec_round_23_of_40 num_57_58 show ?thesis
    by simp
qed

text \<open>
  January 2024 seen on 2024-01-05: the logged day 5 shows 45 minutes and 150 percent,
  the unlogged day 2 is a failure with 0 minutes, the unlogged day 10 is empty.
\<close>

theorem grid_cell_cases_witness:
  "cellText (grid (\<lambda>i j. exampleNow) loggedState ! 4 ! 0) =
     Some \<lparr>textColour = TextEmerald, shownTime = num 45, shownTarget = num 30,
           shownPercent = num 150\<rparr> \<and>
   background (grid (\<lambda>i j. exampleNow) loggedState ! 1 ! 0) = BgRose \<and>
   cellText (grid (\<lambda>i j. exampleNow) loggedState ! 1 ! 0) =
     Some \<lparr>textColour = TextRose, shownTime = num 0, shownTarget = num 30,
           shownPercent = num 0\<rparr> \<and>
   background (grid (\<lambda>i j. exampleNow) loggedState ! 9 ! 0) = BgTransparent \<and>
   cellText (grid (\<lambda>i j. exampleNow) loggedState ! 9 ! 0) = None"
proof -
  let ?grid = "grid (\<lambda>i j. exampleNow) loggedState"
  have vd: "viewDate loggedState = \<lparr>dayNo = 19723, msOfDay = 0\<rparr>"
    and hs: "habits loggedState = [exampleHabit]"
    by (simp_all add: loggedState_def)
  have len: "length (days (viewDate loggedState)) = 31"
    unfolding vd length_days by (simp add: january_2024)
  have d4: "days (viewDate loggedState) ! 4 = \<lparr>dayNo = 19727, msOfDay = 0\<rparr>"
    and d1: "days (viewDate loggedState) ! 1 = \<lparr>dayNo = 19724, msOfDay = 0\<rparr>"
    and d9: "days (viewDate loggedState) ! 9 = \<lparr>dayNo = 19732, msOfDay = 0\<rparr>"
    using len unfolding vd by (simp_all add: nth_days january_2024)
  have e4: "getEntry loggedState ''h1'' ''2024-01-05'' =
      Some \<lparr>habitId = ''h1'', date = ''2024-01-05'', status = StatusDone, timeSpent = num 45,
            notes = None\<rparr>"
    and e1: "getEntry loggedState ''h1'' ''2024-01-02'' = None"
    and e9: "getEntry loggedState ''h1'' ''2024-01-10'' = None"
    by (simp_all add: getEntry_def loggedState_def exampleEntries_def)
  note cells = grid_cell_cases [of loggedState "\<lambda>i j. exampleNow", rule_format, of _ 0]
  from cells [of 4] len
  obtain p where shown: "cellText (?grid ! 4 ! 0) =
       Some \<lparr>textColour = TextEmerald, shownTime = num 45, shownTarget = num 30,
             shownPercent = p\<rparr>"
    and "p = Math_round (js_mul (js_div (num 45) (num 30)) (num 100))"
    and percent: "\<forall>t g. num 45 = num t \<and> num 30 = num g \<and> g \<noteq> 0 \<and>
        \<bar>t\<bar> \<le> 2 ^ 43 \<and> \<bar>g\<bar> \<le> 2 ^ 53 \<longrightarrow>
        (\<exists>r. p = num r \<and>
             (r = spec_round (of_int t / of_int g * 100) \<or>
              (of_int r :: rat) + 1 / 2 = of_int t / of_int g * 100))"
    unfolding d4 hs by (auto simp add: format_examples exampleHabit_def e4)
  from percent [rule_format, of 45 30]
  obtain r where r: "p = num r"
    and "r = spec_round (of_int 45 / of_int 30 * 100) \<or>
         (of_int r :: rat) + 1 / 2 = of_int 45 / of_int 30 * 100"
    by auto
  moreover have "(of_int 45 / of_int 30 * 100 :: rat) = of_int 150"
    by simp
  moreover have "spec_round (of_int 150) = 150"
    by (simp add: spec_round_def floor_eq_iff)
  ultimately have "r = 150"
    using no_half_integer [of r 150] by (simp only:) blast
  with shown r
  have c4: "cellText (?grid ! 4 ! 0) =
     Some \<lparr>textColour = TextEmerald, shownTime = num 45, shownTarget = num 30,
           shownPercent = num 150\<rparr>"
    by simp
  from cells [of 1] len
  have c1: "background (?grid ! 1 ! 0) = BgRose \<and>
   cellText (?grid ! 1 ! 0) =
     Some \<lparr>textColour = TextRose, shownTime = num 0, shownTarget = num 30,
           shownPercent = num 0\<rparr>"
    unfolding d1 hs by (simp add: format_examples exampleHabit_def e1 exampleNow_def)
  from cells [of 9] len
  have c9: "background (?grid ! 9 ! 0) = BgTransparent \<and> cellText (?grid ! 9 ! 0) = None"
    unfolding d9 hs by (simp add: format_examples exampleHabit_def e9 exampleNow_def)
  from c4 c1 c9 show ?thesis
    by simp
qed

text \<open>
  The same habit, entries and month give another trend and another grid on the next
  day: the views read the clock, which is none of their arguments in the source.
\<close>

theorem projections_depend_on_clock_counterexample:
  "(\<forall>parseISO.
      view_last30Days
        (HabitStats parseISO (\<lambda>i. \<lparr>dayNo = 19727, msOfDay = 0\<rparr>) exampleHabit exampleEntries) \<noteq>
      view_last30Days
        (HabitStats parseISO (\<lambda>i. \<lparr>dayNo = 19728, msOfDay = 0\<rparr>) exampleHabit exampleEntries)) \<and>
   grid (\<lambda>i j. \<lparr>dayNo = 19727, msOfDay = 0\<rparr>) exampleState \<noteq>
   grid (\<lambda>i j. \<lparr>dayNo = 19728, msOfDay = 0\<rparr>) exampleState"
proof -
  let ?a = "\<lparr>dayNo = 19727, msOfDay = 0\<rparr>" and ?b = "\<lparr>dayNo = 19728, msOfDay = 0\<rparr>"
  have "point_date (last30Days (\<lambda>i. ?a) exampleHabit exampleEntries ! 29) = ''Jan 05''"
    by (simp add: last30Days_def nth_last30DaysFrom chartPoint_def subDays_def format_examples Let_def)
  moreover have "point_date (last30Days (\<lambda>i. ?b) exampleHabit exampleEntries ! 29) = ''Jan 06''"
    by (simp add: last30Days_def nth_last30DaysFrom chartPoint_def subDays_def format_examples Let_def)
  ultimately have "last30Days (\<lambda>i. ?a) exampleHabit exampleEntries ! 29 \<noteq>
      last30Days (\<lambda>i. ?b) exampleHabit exampleEntries ! 29"
    by auto
  then have trend: "last30Days (\<lambda>i. ?a) exampleHabit exampleEntries \<noteq>
      last30Days (\<lambda>i. ?b) exampleHabit exampleEntries"
    by auto
  have vd: "viewDate exampleState = \<lparr>dayNo = 19723, msOfDay = 0\<rparr>"
    by (simp add: exampleState_def)
  have len: "4 < length (days (viewDate exampleState))"
    unfolding vd length_days by (simp add: january_2024)
  then have d4: "days (viewDate exampleState) ! 4 = \<lparr>dayNo = 19727, msOfDay = 0\<rparr>"
    unfolding vd by (simp add: nth_days january_2024)
  have hs: "0 < length (habits exampleState)"
    by (simp add: exampleState_def defaultHabits_def)
  have none: "getEntry exampleState hId d = None" for hId d
    by (simp add: getEntry_def exampleState_def)
  have "cellText (grid (\<lambda>i j. ?a) exampleState ! 4 ! 0) = None"
    unfolding nth_grid [OF len hs] d4
    by (simp add: renderCell_def none isBefore_def startOfToday_def getTime_def)
  moreover have "cellText (grid (\<lambda>i j. ?b) exampleState ! 4 ! 0) \<noteq> None"
    unfolding nth_grid [OF len hs] d4
    by (simp add: renderCell_def none isBefore_def startOfToday_def getTime_def)
  ultimately have "grid (\<lambda>i j. ?a) exampleState \<noteq> grid (\<lambda>i j. ?b) exampleState"
    by auto
  with trend show ?thesis
    by (simp add: HabitStats_def)
qed

text \<open>
  Readings of the clock on 2024-01-05, at midnight, at 10 and at a different
  millisecond in each iteration, give the same views.
\<close>

theorem projections_read_the_clock_day_witness:
  "dayNo exampleNow = dayNo \<lparr>dayNo = 19727, msOfDay = 0\<rparr> \<and>
   exampleNow \<noteq> \<lparr>dayNo = 19727, msOfDay = 0\<rparr> \<and>
   (\<forall>parseISO.
      HabitStats parseISO (\<lambda>i. exampleNow) exampleHabit exampleEntries =
        HabitStats parseISO (\<lambda>i. \<lparr>dayNo = 19727, msOfDay = 0\<rparr>) exampleHabit exampleEntries \<and>
      HabitStats parseISO (\<lambda>i. exampleNow) exampleHabit exampleEntries =
        HabitStats parseISO (\<lambda>i. \<lparr>dayNo = 19727, msOfDay = i\<rparr>) exampleHabit exampleEntries) \<and>
   grid (\<lambda>i j. exampleNow) loggedState = grid (\<lambda>i j. \<lparr>dayNo = 19727, msOfDay = 0\<rparr>) loggedState \<and>
   grid (\<lambda>i j. exampleNow) loggedState = grid (\<lambda>i j. \<lparr>dayNo = 19727, msOfDay = i + j\<rparr>) loggedState"
proof -
  have same_day: "dayNo exampleNow = dayNo \<lparr>dayNo = 19727, msOfDay = 0\<rparr>"
    and other: "exampleNow \<noteq> \<lparr>dayNo = 19727, msOfDay = 0\<rparr>"
    by (simp_all add: exampleNow_def)
  have iterations: "\<forall>i<30. dayNo ((\<lambda>i. exampleNow) i) = dayNo ((\<lambda>i. \<lparr>dayNo = 19727, msOfDay = i\<rparr>) i)"
    by (simp add: exampleNow_def)
  have cells: "\<forall>i < length (days (viewDate loggedState)). \<forall>j < length (habits loggedState).
      dayNo ((\<lambda>i j. exampleNow) i j) = dayNo ((\<lambda>i j. \<lparr>dayNo = 19727, msOfDay = i + j\<rparr>) i j)"
    by (simp add: exampleNow_def)
  note clock = projections_read_the_clock_day
    [of _ "\<lambda>i. exampleNow" exampleHabit exampleEntries
        "\<lambda>i. \<lparr>dayNo = 19727, msOfDay = i\<rparr>" loggedState
        "\<lambda>i j. exampleNow" "\<lambda>i j. \<lparr>dayNo = 19727, msOfDay = i + j\<rparr>"
        exampleNow "\<lparr>dayNo = 19727, msOfDay = 0\<rparr>"]
  from clock iterations
  have "HabitStats parseISO (\<lambda>i. exampleNow) exampleHabit exampleEntries =
     HabitStats parseISO (\<lambda>i. \<lparr>dayNo = 19727, msOfDay = i\<rparr>) exampleHabit exampleEntries"
    for parseISO
    by blast
  moreover from clock cells
  have "grid (\<lambda>i j. exampleNow) loggedState =
      grid (\<lambda>i j. \<lparr>dayNo = 19727, msOfDay = i + j\<rparr>) loggedState"
    by blast
  moreover from clock same_day
  have "HabitStats parseISO (\<lambda>i. exampleNow) exampleHabit exampleEntries =
     HabitStats parseISO (\<lambda>i. \<lparr>dayNo = 19727, msOfDay = 0\<rparr>) exampleHabit exampleEntries \<and>
   grid (\<lambda>i j. exampleNow) loggedState = grid (\<lambda>i j. \<lparr>dayNo = 19727, msOfDay = 0\<rparr>) loggedState"
    for parseISO
    by blast
  ultimately show ?thesis
    using same_day other by simp
qed
section \<open>Properties of the load effect\<close>

text \<open>The equations of the parser for a positive amount of fuel.\<close>

lemma parseValue_fuel:
  "0 < n \<Longrightarrow> parseValue n s =
     (if take 1 s = ''{'' then
        (if take 1 (skipWs (drop 1 s)) = ''}'' then Parsed (Object []) (drop 1 (skipWs (drop 1 s)))
         else parseMembers (n - 1) (skipWs (drop 1 s)) [])
      else if take 1 s = ''['' then
        (if take 1 (skipWs (drop 1 s)) = '']'' then Parsed (Array []) (drop 1 (skipWs (drop 1 s)))
         else parseElements (n - 1) (skipWs (drop 1 s)) [])
      else if take 1 s = [CHR 0x22] then
        (case parseChars (drop 1 s) [] of
           Parsed cs r \<Rightarrow> Parsed (String cs) r
         | Rejected \<Rightarrow> Rejected
         | OutOfFuel \<Rightarrow> OutOfFuel)
      else if take 1 s = ''-'' \<or> list_all isDigit (take 1 s) \<and> s \<noteq> [] then parseNumber s
      else parseLiteral s)"
  by (cases n) (simp_all only: parseValue.simps diff_Suc_1 less_irrefl)

lemma parseElements_fuel:
  "0 < n \<Longrightarrow> parseElements n s acc =
     (case parseValue (n - 1) s of
        Parsed v r \<Rightarrow>
          (if take 1 (skipWs r) = '','' then parseElements (n - 1) (skipWs (drop 1 (skipWs r))) (acc @ [v])
           else if take 1 (skipWs r) = '']'' then Parsed (Array (acc @ [v])) (drop 1 (skipWs r))
           else Rejected)
      | Rejected \<Rightarrow> Rejected
      | OutOfFuel \<Rightarrow> OutOfFuel)"
  by (cases n) (simp_all only: parseElements.simps diff_Suc_1 less_irrefl)

lemma parseMembers_fuel:
  "0 < n \<Longrightarrow> parseMembers n s acc =
     (if take 1 s = [CHR 0x22] then
        (case parseChars (drop 1 s) [] of
           Parsed k r \<Rightarrow>
             (if take 1 (skipWs r) = '':'' then
                (case parseValue (n - 1) (skipWs (drop 1 (skipWs r))) of
                   Parsed v r' \<Rightarrow>
                     (if take 1 (skipWs r') = '','' then
                        parseMembers (n - 1) (skipWs (drop 1 (skipWs r'))) (acc @ [(k, v)])
                      else if take 1 (skipWs r') = ''}'' then
                        Parsed (Object (acc @ [(k, v)])) (drop 1 (skipWs r'))
                      else Rejected)
                 | Rejected \<Rightarrow> Rejected
                 | OutOfFuel \<Rightarrow> OutOfFuel)
              else Rejected)
         | Rejected \<Rightarrow> Rejected
         | OutOfFuel \<Rightarrow> OutOfFuel)
      else Rejected)"
  by (cases n) (simp_all only: parseMembers.simps diff_Suc_1 less_irrefl)

lemmas fuel_eval = parseValue_fuel parseElements_fuel parseMembers_fuel

subsection \<open>The fuel of the parser\<close>

text \<open>
  Every parsing function that returns a value has consumed a character: the rest of
  the text is shorter than the text.
\<close>

lemma length_skipWs: "length (skipWs s) \<le> length s"
  by (simp add: skipWs_def length_dropWhile_le)

lemma parseChars_progress:
  "parseChars s acc \<noteq> OutOfFuel \<and>
   (\<forall>x r'. parseChars s acc = Parsed x r' \<longrightarrow> length r' < length s)"
proof (induction "length s" arbitrary: s acc rule: less_induct)
  case less
  show ?case
  proof (cases s)
    case Nil
    then show ?thesis by simp
  next
    case outer: (Cons c t)
    show ?thesis
    proof (cases t)
      case Nil
      with outer show ?thesis by simp
    next
      case (Cons e r)
      have shorter: "parseChars u a \<noteq> OutOfFuel \<and>
          (\<forall>x r'. parseChars u a = Parsed x r' \<longrightarrow> length r' < Suc (Suc (length r)))"
        if "length u \<le> Suc (length r)" for u a
      proof -
        from that outer Cons have "length u < length s"
          by simp
        from less [OF this, of a] that show ?thesis
          by auto
      qed
      have r: "parseChars r a \<noteq> OutOfFuel \<and>
          (\<forall>x r'. parseChars r a = Parsed x r' \<longrightarrow> length r' < Suc (Suc (length r)))" for a
        by (rule shorter) simp
      have d: "parseChars (drop 4 r) a \<noteq> OutOfFuel \<and>
          (\<forall>x r'. parseChars (drop 4 r) a = Parsed x r' \<longrightarrow> length r' < Suc (Suc (length r)))" for a
        by (rule shorter) simp
      have er: "parseChars (e' # r) a \<noteq> OutOfFuel \<and>
          (\<forall>x r'. parseChars (e' # r) a = Parsed x r' \<longrightarrow> length r' < Suc (Suc (length r)))" for a e'
        by (rule shorter) simp
      show ?thesis
        unfolding outer Cons
        by (simp add: r d er del: parseChars.simps(2,3) add: parseChars.simps(3) [of c e r acc])
    qed
  qed
qed

lemma drop_shorter: "take n s = c # cs \<Longrightarrow> length (drop n s) < length s"
  by (cases s; cases n) auto

lemma parseLiteral_progress:
  "parseLiteral s \<noteq> OutOfFuel \<and> (\<forall>v r. parseLiteral s = Parsed v r \<longrightarrow> length r < length s)"
  by (auto simp: parseLiteral_def split: if_splits dest: drop_shorter)

lemma parseNumber_progress:
  "parseNumber s \<noteq> OutOfFuel \<and> (\<forall>v r. parseNumber s = Parsed v r \<longrightarrow> length r < length s)"
proof -
  define negative where "negative = (take 1 s = ''-'')"
  define s1 where "s1 = (if negative then drop 1 s else s)"
  define intPart where "intPart = (if take 1 s1 = ''0'' then ''0'' else takeWhile isDigit s1)"
  define s2 where "s2 = drop (length intPart) s1"
  define hasFrac where "hasFrac = (take 1 s2 = ''.'')"
  define fracPart where "fracPart = (if hasFrac then takeWhile isDigit (drop 1 s2) else [])"
  define s3 where "s3 = (if hasFrac then drop (1 + length fracPart) s2 else s2)"
  define hasExp where "hasExp = (take 1 s3 = ''e'' \<or> take 1 s3 = ''E'')"
  define s4 where "s4 = (if hasExp then drop 1 s3 else s3)"
  define expNegative where "expNegative = (hasExp \<and> take 1 s4 = ''-'')"
  define s5 where "s5 = (if hasExp \<and> (take 1 s4 = ''-'' \<or> take 1 s4 = ''+'') then drop 1 s4 else s4)"
  define expPart where "expPart = (if hasExp then takeWhile isDigit s5 else [])"
  define rest where "rest = drop (length expPart) s5"
  define mantissa where "mantissa = int (digitsNat 10 (intPart @ fracPart))"
  define exponent where "exponent =
    (if expNegative then - int (digitsNat 10 expPart) else int (digitsNat 10 expPart))
      - int (length fracPart)"
  have unfolded: "parseNumber s =
     (if intPart = [] \<or> (hasFrac \<and> fracPart = []) \<or> (hasExp \<and> expPart = []) then Rejected
      else Parsed
             (Number (roundToDouble ((if negative then - mantissa else mantissa) * 10 ^ nat exponent)
                        (10 ^ nat (- exponent))))
             rest)"
    unfolding parseNumber_def negative_def s1_def intPart_def s2_def hasFrac_def fracPart_def
      s3_def hasExp_def s4_def expNegative_def s5_def expPart_def rest_def mantissa_def
      exponent_def
    by (simp only: Let_def)
  have "length rest \<le> length s5"
    by (simp add: rest_def)
  also have "\<dots> \<le> length s4"
    by (simp add: s5_def)
  also have "\<dots> \<le> length s3"
    by (simp add: s4_def)
  also have "\<dots> \<le> length s2"
    by (simp add: s3_def)
  finally have rest: "length rest \<le> length s2" .
  have s1: "length s1 \<le> length s"
    by (simp add: s1_def)
  have prefix: "length intPart \<le> length s1"
    by (cases s1) (auto simp: intPart_def length_takeWhile_le)
  have "length s2 < length s" if "intPart \<noteq> []"
    using that s1 prefix by (cases intPart) (auto simp: s2_def)
  with rest have "length rest < length s" if "intPart \<noteq> []"
    using that by fastforce
  then show ?thesis
    unfolding unfolded by auto
qed


text \<open>
  One more unit of fuel carries the three mutually recursive functions one call
  further: a function called with the fuel \<open>n\<close> on a text \<open>s\<close> does not run out of
  fuel when \<open>n\<close> is above twice the length of \<open>s\<close> (and one more for the elements and
  the members).
\<close>

lemma skip_drop_skip: "length (skipWs (drop 1 (skipWs r))) \<le> length r - 1"
proof -
  have "length (skipWs (drop 1 (skipWs r))) \<le> length (drop 1 (skipWs r))"
    by (rule length_skipWs)
  also have "\<dots> \<le> length r - 1"
    using length_skipWs [of r] by simp
  finally show ?thesis .
qed

lemma drop_skip: "length (drop 1 (skipWs r)) \<le> length r - 1"
  using length_skipWs [of r] by simp

lemma take1_nonempty: "take 1 s = [c] \<Longrightarrow> 0 < length s"
  by (cases s) auto

lemma parseElements_step:
  assumes V: "\<And>s. (2 * length s < n \<longrightarrow> parseValue n s \<noteq> OutOfFuel) \<and>
                  (\<forall>v r. parseValue n s = Parsed v r \<longrightarrow> length r < length s)"
    and E: "\<And>s acc. (2 * length s + 1 < n \<longrightarrow> parseElements n s acc \<noteq> OutOfFuel) \<and>
                  (\<forall>v r. parseElements n s acc = Parsed v r \<longrightarrow> length r < length s)"
  shows "(2 * length s + 1 < Suc n \<longrightarrow> parseElements (Suc n) s acc \<noteq> OutOfFuel) \<and>
         (\<forall>v r. parseElements (Suc n) s acc = Parsed v r \<longrightarrow> length r < length s)"
proof (cases "parseValue n s")
  case (Parsed v r)
  with V [of s] have r: "length r < length s"
    by simp
  note next' = E [of "skipWs (drop 1 (skipWs r))" "acc @ [v]"]
  from r skip_drop_skip [of r] drop_skip [of r] next' Parsed show ?thesis
    by (auto dest: take1_nonempty)
next
  case Rejected
  then show ?thesis by simp
next
  case OutOfFuel
  with V [of s] show ?thesis by auto
qed

lemma parseMembers_step:
  assumes V: "\<And>s. (2 * length s < n \<longrightarrow> parseValue n s \<noteq> OutOfFuel) \<and>
                  (\<forall>v r. parseValue n s = Parsed v r \<longrightarrow> length r < length s)"
    and M: "\<And>s acc. (2 * length s + 1 < n \<longrightarrow> parseMembers n s acc \<noteq> OutOfFuel) \<and>
                  (\<forall>v r. parseMembers n s acc = Parsed v r \<longrightarrow> length r < length s)"
  shows "(2 * length s + 1 < Suc n \<longrightarrow> parseMembers (Suc n) s acc \<noteq> OutOfFuel) \<and>
         (\<forall>v r. parseMembers (Suc n) s acc = Parsed v r \<longrightarrow> length r < length s)"
proof (cases "take 1 s = [CHR 0x22]")
  case False
  then show ?thesis by simp
next
  case quote: True
  show ?thesis
  proof (cases "parseChars (drop 1 s) []")
    case (Parsed k r)
    with parseChars_progress [of "drop 1 s" "[]"] have r: "length r < length s - 1"
      by simp
    show ?thesis
    proof (cases "take 1 (skipWs r) = '':''")
      case False
      with quote Parsed show ?thesis by simp
    next
      case colon: True
      let ?s2 = "skipWs (drop 1 (skipWs r))"
      from skip_drop_skip [of r] r have s2: "length ?s2 + 2 \<le> length s"
        by simp
      show ?thesis
      proof (cases "parseValue n ?s2")
        case parsed: (Parsed v r')
        with V [of ?s2] have r': "length r' < length ?s2"
          by simp
        note next' = M [of "skipWs (drop 1 (skipWs r'))" "acc @ [(k, v)]"]
        from r' s2 skip_drop_skip [of r'] drop_skip [of r'] next' quote Parsed colon parsed
        show ?thesis
          by (auto dest: take1_nonempty)
      next
        case Rejected
        with quote Parsed colon show ?thesis by simp
      next
        case OutOfFuel
        with V [of ?s2] s2 quote Parsed colon show ?thesis by auto
      qed
    qed
  next
    case Rejected
    with quote show ?thesis by simp
  next
    case OutOfFuel
    with parseChars_progress [of "drop 1 s" "[]"] show ?thesis by simp
  qed
qed

lemma parseValue_step:
  assumes E: "\<And>s acc. (2 * length s + 1 < n \<longrightarrow> parseElements n s acc \<noteq> OutOfFuel) \<and>
                  (\<forall>v r. parseElements n s acc = Parsed v r \<longrightarrow> length r < length s)"
    and M: "\<And>s acc. (2 * length s + 1 < n \<longrightarrow> parseMembers n s acc \<noteq> OutOfFuel) \<and>
                  (\<forall>v r. parseMembers n s acc = Parsed v r \<longrightarrow> length r < length s)"
  shows "(2 * length s < Suc n \<longrightarrow> parseValue (Suc n) s \<noteq> OutOfFuel) \<and>
         (\<forall>v r. parseValue (Suc n) s = Parsed v r \<longrightarrow> length r < length s)"
proof -
  let ?s1 = "skipWs (drop 1 s)"
  have s1: "length ?s1 \<le> length s - 1"
    using length_skipWs [of "drop 1 s"] by simp
  have d1: "length (drop 1 ?s1) \<le> length s - 1"
    using s1 by simp
  consider (obj) "take 1 s = ''{''" | (arr) "take 1 s \<noteq> ''{''" "take 1 s = ''[''"
    | (string) "take 1 s \<noteq> ''{''" "take 1 s \<noteq> ''[''" "take 1 s = [CHR 0x22]"
    | (other) "take 1 s \<noteq> ''{''" "take 1 s \<noteq> ''[''" "take 1 s \<noteq> [CHR 0x22]"
    by blast
  then show ?thesis
  proof cases
    case obj
    then have pos: "0 < length s"
      by (rule take1_nonempty)
    from pos s1 have shorter: "length ?s1 < length s" and fuel: "2 * length s < Suc n \<longrightarrow> 2 * length ?s1 + 1 < n"
      by arith+
    from pos d1 have rest: "length (drop 1 ?s1) < length s"
      by arith
    from M [of ?s1 "[]"] shorter fuel
    have "(2 * length s < Suc n \<longrightarrow> parseMembers n ?s1 [] \<noteq> OutOfFuel) \<and>
          (\<forall>v r. parseMembers n ?s1 [] = Parsed v r \<longrightarrow> length r < length s)"
      by (meson less_trans)
    with obj rest show ?thesis
      by (simp del: length_drop)
  next
    case arr
    then have pos: "0 < length s"
      by (auto dest: take1_nonempty)
    from pos s1 have shorter: "length ?s1 < length s" and fuel: "2 * length s < Suc n \<longrightarrow> 2 * length ?s1 + 1 < n"
      by arith+
    from pos d1 have rest: "length (drop 1 ?s1) < length s"
      by arith
    from E [of ?s1 "[]"] shorter fuel
    have "(2 * length s < Suc n \<longrightarrow> parseElements n ?s1 [] \<noteq> OutOfFuel) \<and>
          (\<forall>v r. parseElements n ?s1 [] = Parsed v r \<longrightarrow> length r < length s)"
      by (meson less_trans)
    with arr rest show ?thesis
      by (simp del: length_drop)
  next
    case string
    then have "0 < length s"
      by (auto dest: take1_nonempty)
    with string parseChars_progress [of "drop 1 s" "[]"] show ?thesis
      by (auto split: Parsed.splits)
  next
    case other
    with parseNumber_progress [of s] parseLiteral_progress [of s] show ?thesis
      by simp
  qed
qed

lemma parser_progress:
  "(\<forall>s. (2 * length s < n \<longrightarrow> parseValue n s \<noteq> OutOfFuel) \<and>
        (\<forall>v r. parseValue n s = Parsed v r \<longrightarrow> length r < length s)) \<and>
   (\<forall>s acc. (2 * length s + 1 < n \<longrightarrow> parseElements n s acc \<noteq> OutOfFuel) \<and>
        (\<forall>v r. parseElements n s acc = Parsed v r \<longrightarrow> length r < length s)) \<and>
   (\<forall>s acc. (2 * length s + 1 < n \<longrightarrow> parseMembers n s acc \<noteq> OutOfFuel) \<and>
        (\<forall>v r. parseMembers n s acc = Parsed v r \<longrightarrow> length r < length s))"
proof (induction n)
  case 0
  show ?case by simp
next
  case (Suc n)
  from Suc have V: "(2 * length s < n \<longrightarrow> parseValue n s \<noteq> OutOfFuel) \<and>
        (\<forall>v r. parseValue n s = Parsed v r \<longrightarrow> length r < length s)" for s
    by blast
  from Suc have E: "(2 * length s + 1 < n \<longrightarrow> parseElements n s acc \<noteq> OutOfFuel) \<and>
        (\<forall>v r. parseElements n s acc = Parsed v r \<longrightarrow> length r < length s)" for s acc
    by blast
  from Suc have M: "(2 * length s + 1 < n \<longrightarrow> parseMembers n s acc \<noteq> OutOfFuel) \<and>
        (\<forall>v r. parseMembers n s acc = Parsed v r \<longrightarrow> length r < length s)" for s acc
    by blast
  show ?case
    using parseValue_step [OF E M] parseElements_step [OF V E] parseMembers_step [OF V M]
    by blast
qed

text \<open>
  So \<open>JSON.parse\<close> never runs out of fuel: the \<open>SyntaxError\<close> of the model is always
  a rejection of the text.
\<close>

lemma JSON_parse_fuel: "parseValue (2 * length text + 2) (skipWs text) \<noteq> OutOfFuel"
proof -
  have "2 * length (skipWs text) < 2 * length text + 2"
    using length_skipWs [of "text"] by simp
  with parser_progress [of "2 * length text + 2"] show ?thesis
    by blast
qed

lemma JSON_parse_cases:
  "JSON_parse text =
     (case parseValue (2 * length text + 2) (skipWs text) of
        Parsed v r \<Rightarrow> if skipWs r = [] then Inr v else Inl SyntaxError
      | _ \<Rightarrow> Inl SyntaxError) \<and>
   parseValue (2 * length text + 2) (skipWs text) \<noteq> OutOfFuel"
  using JSON_parse_fuel [of "text"] by (simp add: JSON_parse_def split: Parsed.split)

subsection \<open>The outcomes\<close>

text \<open>The parser on the texts of the example.\<close>

lemmas json_eval =
  JSON_parse_def skipWs_def isDigit_def digitOf_def digitsNat_def parseNumber_def
  parseLiteral_def dq_def str_def getProperty_def

lemma parse_savedSnapshot:
  "JSON_parse savedSnapshot =
     Inr (Object
            [(str ''habits'',
              Array [Object [(str ''id'', String (str ''1'')),
                             (str ''name'', String (str ''Exercise'')),
                             (str ''targetTime'', Number (num 30))]]),
             (str ''entries'', Array [])])"
  unfolding savedSnapshot_def
  by (simp add: json_eval number_eval fuel_eval cong: let_weak_cong Parsed.case_cong_weak)

lemma parse_malformedText: "JSON_parse malformedText = Inl SyntaxError"
  unfolding malformedText_def
  by (simp add: json_eval fuel_eval cong: let_weak_cong Parsed.case_cong_weak)

lemma parse_null: "JSON_parse ''null'' = Inr Null"
  by (simp add: json_eval fuel_eval cong: let_weak_cong Parsed.case_cong_weak)

lemma parse_empty_array: "JSON_parse ''[]'' = Inr (Array [])"
  by (simp add: json_eval fuel_eval cong: let_weak_cong Parsed.case_cong_weak)

text \<open>
  A text that is not JSON makes \<open>JSON.parse\<close> throw, and nothing catches the
  exception: the effect sets no state, and the default habits are not installed. The
  text \<open>null\<close> parses, and the destructuring of \<open>null\<close> throws.
\<close>

theorem load_malformed_counterexample:
  "loadData (Some malformedText) = Threw SyntaxError \<and>
   loadData (Some malformedText) \<noteq> SetDefaultHabits defaultHabits \<and>
   loadData (Some ''null'') = Threw TypeError"
proof -
  have "malformedText \<noteq> []"
    by (simp add: malformedText_def)
  then have "loadData (Some malformedText) = Threw SyntaxError"
    by (simp add: loadData_def parse_malformedText)
  moreover have "loadData (Some ''null'') = Threw TypeError"
    by (simp add: loadData_def parse_null)
  ultimately show ?thesis
    by simp
qed

text \<open>
  Claim C8, as amended. On startup, an absent or empty storage slot gives the default
  habits and no entries. Any other text is given to \<open>JSON.parse\<close>: when it throws, the
  effect throws the same error, and when the value is \<open>null\<close> the destructuring throws
  a \<open>TypeError\<close>; there is no fallback to the defaults. Otherwise the store takes the
  properties \<open>habits\<close> and \<open>entries\<close> of the value as they are.
\<close>

theorem load_outcomes:
  "(saved = None \<or> saved = Some [] \<longrightarrow> loadData saved = SetDefaultHabits defaultHabits) \<and>
   (saved = Some text \<and> text \<noteq> [] \<and> JSON_parse text = Inl e \<longrightarrow> loadData saved = Threw e) \<and>
   (saved = Some text \<and> text \<noteq> [] \<and> JSON_parse text = Inr Null \<longrightarrow>
      loadData saved = Threw TypeError) \<and>
   (saved = Some text \<and> text \<noteq> [] \<and> JSON_parse text = Inr v \<and> v \<noteq> Null \<longrightarrow>
      loadData saved = SetHabitsAndEntries (getProperty v ''habits'') (getProperty v ''entries''))"
  by (auto simp: loadData_def)

text \<open>
  The five outcomes: no slot, an empty slot, a malformed text, the text \<open>null\<close>, and
  the snapshot of one habit, which is restored.
\<close>

theorem load_outcomes_witness:
  "loadData None = SetDefaultHabits defaultHabits \<and>
   loadData (Some []) = SetDefaultHabits defaultHabits \<and>
   loadData (Some malformedText) = Threw SyntaxError \<and>
   loadData (Some ''null'') = Threw TypeError \<and>
   loadData (Some savedSnapshot) =
     SetHabitsAndEntries
       (Array [Object [(str ''id'', String (str ''1'')),
                       (str ''name'', String (str ''Exercise'')),
                       (str ''targetTime'', Number (num 30))]])
       (Array [])"
proof -
  have m: "malformedText \<noteq> []" and s: "savedSnapshot \<noteq> []"
    by (simp_all add: malformedText_def savedSnapshot_def dq_def)
  from load_outcomes [of None] have a: "loadData None = SetDefaultHabits defaultHabits"
    by simp
  from load_outcomes [of "Some []"] have b: "loadData (Some []) = SetDefaultHabits defaultHabits"
    by simp
  from load_outcomes [of "Some malformedText" malformedText SyntaxError] m parse_malformedText
  have c: "loadData (Some malformedText) = Threw SyntaxError"
    by simp
  from load_outcomes [of "Some ''null''" "''null''"] parse_null
  have d: "loadData (Some ''null'') = Threw TypeError"
    by simp
  from load_outcomes [of "Some savedSnapshot" savedSnapshot _ _, THEN conjunct2, THEN conjunct2,
      THEN conjunct2, rule_format, OF conjI [OF refl conjI [OF s conjI [OF parse_savedSnapshot]]]]
  have e: "loadData (Some savedSnapshot) =
     SetHabitsAndEntries
       (Array [Object [(str ''id'', String (str ''1'')),
                       (str ''name'', String (str ''Exercise'')),
                       (str ''targetTime'', Number (num 30))]])
       (Array [])"
    by (simp add: getProperty_def str_def)
  from a b c d e show ?thesis
    by simp
qed

text \<open>An array has no property \<open>habits\<close>, and its \<open>entries\<close> is the method of the prototype.\<close>

lemma load_array: "loadData (Some ''[]'') =
    SetHabitsAndEntries Undefined (NativeFunction ''Array.prototype.entries'')"
  by (simp add: loadData_def parse_empty_array getProperty_def)

end
